theory Spec2Isabelle
  imports Main
begin

section \<open>JavaScript strings\<close>

text \<open>
  A JavaScript string is modelled by an Isabelle \<^typ>\<open>string\<close>; a character is read as a
  code unit in the range U+0000 .. U+00FF.
\<close>

subsection \<open>\<^verbatim>\<open>String.prototype.split\<close> and \<^verbatim>\<open>Array.prototype.join\<close>\<close>

text \<open>
  \<^verbatim>\<open>s.split(sep)\<close> for a one-character separator: the pieces between the separators, in
  order; the empty string gives the one-element array \<^verbatim>\<open>['']\<close>.
\<close>

fun split :: "char \<Rightarrow> string \<Rightarrow> string list" where
  "split sep [] = [ [] ]"
| "split sep (c # cs) =
     (if c = sep then [] # split sep cs
      else (case split sep cs of
              [] \<Rightarrow> [ [c] ]
            | p # ps \<Rightarrow> (c # p) # ps))"

text \<open>\<^verbatim>\<open>parts.join(sep)\<close>: the empty array gives the empty string.\<close>

fun join :: "char \<Rightarrow> string list \<Rightarrow> string" where
  "join sep [] = []"
| "join sep [p] = p"
| "join sep (p # q # ps) = p @ sep # join sep (q # ps)"

text \<open>
  \<^verbatim>\<open>xs.slice(-k)\<close>: the relative start \<open>-k\<close> is \<open>max (length - k) 0\<close> when \<open>k > 0\<close>;
  \<open>-0\<close> is \<open>0\<close>, so that \<^verbatim>\<open>xs.slice(-0)\<close> is the whole array.
\<close>

definition slice_neg :: "nat \<Rightarrow> 'a list \<Rightarrow> 'a list" where
  "slice_neg k xs = (if k = 0 then xs else drop (length xs - k) xs)"

subsection \<open>Case mapping and white space\<close>

definition code :: "char \<Rightarrow> nat" where
  "code c = of_char c"

text \<open>
  \<^verbatim>\<open>String.prototype.toLowerCase\<close> on code units below 256: the letters \<open>A\<close> .. \<open>Z\<close> and the
  Latin-1 capitals U+00C0 .. U+00DE (the multiplication sign U+00D7 apart) move up by 32,
  every other code unit is unchanged.
\<close>

definition toLowerCase_char :: "char \<Rightarrow> char" where
  "toLowerCase_char c =
     (if (65 \<le> code c \<and> code c \<le> 90) \<or> (192 \<le> code c \<and> code c \<le> 222 \<and> code c \<noteq> 215)
      then char_of (code c + 32) else c)"

definition toLowerCase :: "string \<Rightarrow> string" where
  "toLowerCase s = map toLowerCase_char s"

text \<open>
  The upper-case partner of a code unit, as far as it is below 256. The pattern flag
  \<^verbatim>\<open>i\<close> compares characters by their upper-case forms.
\<close>

definition toUpperCase_char :: "char \<Rightarrow> char" where
  "toUpperCase_char c =
     (if (97 \<le> code c \<and> code c \<le> 122) \<or> (224 \<le> code c \<and> code c \<le> 254 \<and> code c \<noteq> 247)
      then char_of (code c - 32) else c)"

text \<open>
  White space and line terminators of ECMAScript below 256: TAB, LF, VT, FF, CR, SPACE and
  the no-break space U+00A0.
\<close>

definition isWhiteSpace :: "char \<Rightarrow> bool" where
  "isWhiteSpace c = (code c \<in> {9, 10, 11, 12, 13, 32, 160})"

definition trim :: "string \<Rightarrow> string" where
  "trim s = rev (dropWhile isWhiteSpace (rev (dropWhile isWhiteSpace s)))"

section \<open>Regular expressions\<close>

text \<open>
  The patterns of the source use character classes, concatenation, an optional group, a
  bounded repetition and \<open>+\<close>; all of them are anchored by \<^verbatim>\<open>^\<close> and \<^verbatim>\<open>$\<close>, so that
  \<^verbatim>\<open>pattern.test(s)\<close> asks whether the whole of \<open>s\<close> is in the language of the pattern.
\<close>

datatype crange = Range char char | Single char

fun in_crange :: "crange \<Rightarrow> char \<Rightarrow> bool" where
  "in_crange (Range lo hi) c = (code lo \<le> code c \<and> code c \<le> code hi)"
| "in_crange (Single x) c = (c = x)"

definition in_class :: "crange list \<Rightarrow> char \<Rightarrow> bool" where
  "in_class cls c = list_ex (\<lambda>r. in_crange r c) cls"

text \<open>
  With the flag \<^verbatim>\<open>i\<close> a character is in a class when some member of the class has the same
  upper-case form: the character itself, its lower-case or its upper-case partner.
\<close>

definition class_matches :: "bool \<Rightarrow> crange list \<Rightarrow> char \<Rightarrow> bool" where
  "class_matches ignoreCase cls c =
     (in_class cls c \<or>
      (ignoreCase \<and> (in_class cls (toLowerCase_char c) \<or> in_class cls (toUpperCase_char c))))"

datatype regex =
    Zero
  | One
  | Atom "crange list"
  | Seq regex regex
  | Alt regex regex
  | Star regex

text \<open>\<^verbatim>\<open>(?:r)?\<close>, \<^verbatim>\<open>r+\<close> and \<^verbatim>\<open>r{0,n}\<close>.\<close>

definition Opt :: "regex \<Rightarrow> regex" where
  "Opt r = Alt One r"

definition Plus :: "regex \<Rightarrow> regex" where
  "Plus r = Seq r (Star r)"

fun Upto :: "nat \<Rightarrow> regex \<Rightarrow> regex" where
  "Upto 0 r = One"
| "Upto (Suc n) r = Opt (Seq r (Upto n r))"

fun nullable :: "regex \<Rightarrow> bool" where
  "nullable Zero = False"
| "nullable One = True"
| "nullable (Atom cls) = False"
| "nullable (Seq r s) = (nullable r \<and> nullable s)"
| "nullable (Alt r s) = (nullable r \<or> nullable s)"
| "nullable (Star r) = True"

text \<open>The derivative: what may follow the character \<open>c\<close> in a word of the pattern.\<close>

fun deriv :: "bool \<Rightarrow> char \<Rightarrow> regex \<Rightarrow> regex" where
  "deriv i c Zero = Zero"
| "deriv i c One = Zero"
| "deriv i c (Atom cls) = (if class_matches i cls c then One else Zero)"
| "deriv i c (Seq r s) =
     (if nullable r then Alt (Seq (deriv i c r) s) (deriv i c s) else Seq (deriv i c r) s)"
| "deriv i c (Alt r s) = Alt (deriv i c r) (deriv i c s)"
| "deriv i c (Star r) = Seq (deriv i c r) (Star r)"

fun derivs :: "bool \<Rightarrow> string \<Rightarrow> regex \<Rightarrow> regex" where
  "derivs i [] r = r"
| "derivs i (c # cs) r = derivs i cs (deriv i c r)"

text \<open>\<^verbatim>\<open>/^r$/.test(s)\<close>, and \<^verbatim>\<open>/^r$/i.test(s)\<close> when \<open>ignoreCase\<close> is set.\<close>

definition test :: "bool \<Rightarrow> regex \<Rightarrow> string \<Rightarrow> bool" where
  "test ignoreCase r s = nullable (derivs ignoreCase s r)"

text \<open>The language of a pattern, which the derivatives compute.\<close>

definition conc :: "string set \<Rightarrow> string set \<Rightarrow> string set" where
  "conc A B = {u @ v | u v. u \<in> A \<and> v \<in> B}"

inductive_set star :: "string set \<Rightarrow> string set" for A :: "string set" where
  star_Nil: "[] \<in> star A"
| star_app: "u \<in> A \<Longrightarrow> v \<in> star A \<Longrightarrow> u @ v \<in> star A"

fun lang :: "bool \<Rightarrow> regex \<Rightarrow> string set" where
  "lang i Zero = {}"
| "lang i One = {[]}"
| "lang i (Atom cls) = {[c] | c. class_matches i cls c}"
| "lang i (Seq r s) = conc (lang i r) (lang i s)"
| "lang i (Alt r s) = lang i r \<union> lang i s"
| "lang i (Star r) = star (lang i r)"

text \<open>The words that may follow \<open>c\<close> in a language.\<close>

definition Deriv :: "char \<Rightarrow> string set \<Rightarrow> string set" where
  "Deriv c L = {w. c # w \<in> L}"

section \<open>The domain normalizer (storage-manager.js)\<close>

text \<open>\<^verbatim>\<open>.replace(/^https?:\/\//, '')\<close>: a leading \<^verbatim>\<open>http://\<close> or \<^verbatim>\<open>https://\<close> is removed.\<close>

definition strip_scheme :: "string \<Rightarrow> string" where
  "strip_scheme s =
     (if take 7 s = ''http://'' then drop 7 s
      else if take 8 s = ''https://'' then drop 8 s
      else s)"

text \<open>\<^verbatim>\<open>.replace(/^www\./, '')\<close>: one leading \<^verbatim>\<open>www.\<close> is removed.\<close>

definition strip_www :: "string \<Rightarrow> string" where
  "strip_www s = (if take 4 s = ''www.'' then drop 4 s else s)"

text \<open>\<^verbatim>\<open>.replace(/\/$/, '')\<close>: one slash at the very end is removed.\<close>

definition strip_trailing_slash :: "string \<Rightarrow> string" where
  "strip_trailing_slash s = (if s \<noteq> [] \<and> last s = CHR ''/'' then butlast s else s)"

text \<open>\<^verbatim>\<open>/^[a-z0-9-]+$/\<close>\<close>

definition singleLabelPattern :: regex where
  "singleLabelPattern =
     Plus (Atom [Range CHR ''a'' CHR ''z'', Range CHR ''0'' CHR ''9'', Single CHR ''-''])"

text \<open>
  \<^verbatim>\<open>/^(?:[a-z0-9](?:[a-z0-9-]{0,61}[a-z0-9])?\.)+[a-z0-9][a-z0-9-]{0,61}[a-z0-9]$/i\<close>
\<close>

definition alnum :: regex where
  "alnum = Atom [Range CHR ''a'' CHR ''z'', Range CHR ''0'' CHR ''9'']"

definition alnumHyphen :: regex where
  "alnumHyphen = Atom [Range CHR ''a'' CHR ''z'', Range CHR ''0'' CHR ''9'', Single CHR ''-'']"

definition domainPattern :: regex where
  "domainPattern =
     Seq (Plus (Seq (Seq alnum (Opt (Seq (Upto 61 alnumHyphen) alnum)))
                    (Atom [Single CHR ''.''])))
         (Seq alnum (Seq (Upto 61 alnumHyphen) alnum))"

text \<open>A thrown \<^verbatim>\<open>Error\<close> is the value \<open>Error message\<close>.\<close>

datatype error = Error string

definition invalid_domain_message :: "string \<Rightarrow> string" where
  "invalid_domain_message domain =
     ''Invalid domain format: '' @ [CHR 0x22] @ domain @ [CHR 0x22] @
     ''. Please enter a valid domain (e.g., example.com)''"

text \<open>
  \<^verbatim>\<open>
  function normalizeDomain(domain) {
    const normalized = domain.toLowerCase().replace(/^https?:\/\//, '')
      .replace(/^www\./, '').replace(/\/$/, '').trim();
    if (normalized === 'localhost' || /^[a-z0-9-]+$/.test(normalized)) { return normalized; }
    const domainPattern = /^(?:[a-z0-9](?:[a-z0-9-]{0,61}[a-z0-9])?\.)+[a-z0-9][a-z0-9-]{0,61}[a-z0-9]$/i;
    if (!domainPattern.test(normalized)) {
      throw new Error(`Invalid domain format: "${domain}". Please enter a valid domain (e.g., example.com)`);
    }
    return normalized;
  }
  \<close>
\<close>

definition normalizeDomain :: "string \<Rightarrow> error + string" where
  "normalizeDomain domain =
     (let normalized = trim (strip_trailing_slash (strip_www (strip_scheme (toLowerCase domain))))
      in if normalized = ''localhost'' \<or> test False singleLabelPattern normalized
         then Inr normalized
         else if \<not> test True domainPattern normalized
         then Inl (Error (invalid_domain_message domain))
         else Inr normalized)"

section \<open>The domain matcher (storage-manager.js)\<close>

text \<open>
  \<^verbatim>\<open>
  function isSubdomain(subdomain, domain) {
    const subParts = subdomain.split('.');
    const domParts = domain.split('.');
    if (subParts.length <= domParts.length) { return false; }
    const subSuffix = subParts.slice(-domParts.length).join('.');
    return subSuffix === domain;
  }
  \<close>
\<close>

definition isSubdomain :: "string \<Rightarrow> string \<Rightarrow> bool" where
  "isSubdomain subdomain domain =
     (let subParts = split CHR ''.'' subdomain;
          domParts = split CHR ''.'' domain
      in if length subParts \<le> length domParts then False
         else (let subSuffix = join CHR ''.'' (slice_neg (length domParts) subParts)
               in subSuffix = domain))"

text \<open>
  The label-wise reading of the specification: the candidate has strictly more labels than
  the parent, and its last \<open>k\<close> labels are the parent's \<open>k\<close> labels.
\<close>

definition last_labels :: "nat \<Rightarrow> string list \<Rightarrow> string list" where
  "last_labels k ls = rev (take k (rev ls))"

definition isSubdomain_labelwise :: "string \<Rightarrow> string \<Rightarrow> bool" where
  "isSubdomain_labelwise c p =
     (length (split CHR ''.'' p) < length (split CHR ''.'' c) \<and>
      last_labels (length (split CHR ''.'' p)) (split CHR ''.'' c) = split CHR ''.'' p)"

section \<open>The domain grammar of the specification\<close>

definition isDigit :: "char \<Rightarrow> bool" where
  "isDigit c = (48 \<le> code c \<and> code c \<le> 57)"

definition isLowerLetter :: "char \<Rightarrow> bool" where
  "isLowerLetter c = (97 \<le> code c \<and> code c \<le> 122)"

definition isUpperLetter :: "char \<Rightarrow> bool" where
  "isUpperLetter c = (65 \<le> code c \<and> code c \<le> 90)"

definition isAlnum :: "char \<Rightarrow> bool" where
  "isAlnum c = (isLowerLetter c \<or> isUpperLetter c \<or> isDigit c)"

text \<open>Letters, digits and the hyphen.\<close>

definition isLabelChar :: "char \<Rightarrow> bool" where
  "isLabelChar c = (isAlnum c \<or> c = CHR ''-'')"

text \<open>A single DNS label: letters, digits and hyphens only.\<close>

definition single_label :: "string \<Rightarrow> bool" where
  "single_label s = (s \<noteq> [] \<and> list_all isLabelChar s)"

text \<open>
  A label of a dotted hostname: 1 to 63 characters, alphanumeric with internal hyphens, no
  hyphen at either end.
\<close>

definition dns_label :: "string \<Rightarrow> bool" where
  "dns_label l =
     (1 \<le> length l \<and> length l \<le> 63 \<and> list_all isLabelChar l \<and>
      hd l \<noteq> CHR ''-'' \<and> last l \<noteq> CHR ''-'')"

text \<open>A dotted hostname of several labels, as the specification words it.\<close>

definition dotted_hostname :: "string \<Rightarrow> bool" where
  "dotted_hostname s =
     (2 \<le> length (split CHR ''.'' s) \<and> list_all dns_label (split CHR ''.'' s))"

text \<open>The same, with a last label of at least two characters.\<close>

definition dotted_hostname_long_tld :: "string \<Rightarrow> bool" where
  "dotted_hostname_long_tld s =
     (dotted_hostname s \<and> 2 \<le> length (last (split CHR ''.'' s)))"

text \<open>The characters of a normalized domain: lower-case letters, digits, hyphen and dot.\<close>

definition isHostChar :: "char \<Rightarrow> bool" where
  "isHostChar c = (isLowerLetter c \<or> isDigit c \<or> c = CHR ''-'' \<or> c = CHR ''.'')"

section \<open>The whitelist store (storage-manager.js)\<close>

text \<open>
  \<^verbatim>\<open>chrome.storage.local\<close> holds at most one value under the key \<^verbatim>\<open>domainWhitelist\<close>. Every call
  of the storage API ends in a callback that reads \<^verbatim>\<open>chrome.runtime.lastError\<close>; the field
  \<open>lastErrors\<close> lists what the coming calls will find there, one entry for each call, and
  no error once the list is used up. A call that reports an error stores nothing.
\<close>

record storage =
  domainWhitelist :: "string list option"
  lastErrors :: "string option list"

definition next_lastError :: "storage \<Rightarrow> string option \<times> storage" where
  "next_lastError st =
     (case lastErrors st of
        [] \<Rightarrow> (None, st)
      | e # es \<Rightarrow> (e, st\<lparr>lastErrors := es\<rparr>))"

text \<open>
  \<^verbatim>\<open>
  async function getWhitelist() {
    return new Promise((resolve, reject) => {
      chrome.storage.local.get([WHITELIST_KEY], (result) => {
        if (chrome.runtime.lastError) { reject(new Error(chrome.runtime.lastError.message)); }
        else { resolve(result[WHITELIST_KEY] || []); }
      });
    });
  }
  \<close>
\<close>

definition getWhitelist :: "storage \<Rightarrow> (error + string list) \<times> storage" where
  "getWhitelist st =
     (case next_lastError st of
        (Some message, st') \<Rightarrow> (Inl (Error message), st')
      | (None, st') \<Rightarrow>
          (Inr (case domainWhitelist st' of None \<Rightarrow> [] | Some domains \<Rightarrow> domains), st'))"

text \<open>
  \<^verbatim>\<open>
  async function saveWhitelist(domains) {
    return new Promise((resolve, reject) => {
      chrome.storage.local.set({ [WHITELIST_KEY]: domains }, () => {
        if (chrome.runtime.lastError) { reject(new Error(chrome.runtime.lastError.message)); }
        else { resolve(); }
      });
    });
  }
  \<close>
\<close>

definition saveWhitelist :: "string list \<Rightarrow> storage \<Rightarrow> (error + unit) \<times> storage" where
  "saveWhitelist domains st =
     (case next_lastError st of
        (Some message, st') \<Rightarrow> (Inl (Error message), st')
      | (None, st') \<Rightarrow> (Inr (), st'\<lparr>domainWhitelist := Some domains\<rparr>))"

text \<open>
  \<^verbatim>\<open>
  async function addDomainToWhitelist(domain) {
    const whitelist = await getWhitelist();
    const normalizedDomain = normalizeDomain(domain);
    if (!whitelist.includes(normalizedDomain)) {
      whitelist.push(normalizedDomain);
      await saveWhitelist(whitelist);
    }
    return whitelist;
  }
  \<close>
\<close>

definition addDomainToWhitelist :: "string \<Rightarrow> storage \<Rightarrow> (error + string list) \<times> storage" where
  "addDomainToWhitelist domain st =
     (case getWhitelist st of
        (Inl e, st1) \<Rightarrow> (Inl e, st1)
      | (Inr whitelist, st1) \<Rightarrow>
          (case normalizeDomain domain of
             Inl e \<Rightarrow> (Inl e, st1)
           | Inr normalizedDomain \<Rightarrow>
               if normalizedDomain \<notin> set whitelist
               then (let pushed = whitelist @ [normalizedDomain]
                     in case saveWhitelist pushed st1 of
                          (Inl e, st2) \<Rightarrow> (Inl e, st2)
                        | (Inr _, st2) \<Rightarrow> (Inr pushed, st2))
               else (Inr whitelist, st1)))"

text \<open>
  \<^verbatim>\<open>
  async function removeDomainFromWhitelist(domain) {
    const whitelist = await getWhitelist();
    const normalizedDomain = normalizeDomain(domain);
    const updated = whitelist.filter((d) => d !== normalizedDomain);
    await saveWhitelist(updated);
    return updated;
  }
  \<close>
\<close>

definition removeDomainFromWhitelist ::
  "string \<Rightarrow> storage \<Rightarrow> (error + string list) \<times> storage" where
  "removeDomainFromWhitelist domain st =
     (case getWhitelist st of
        (Inl e, st1) \<Rightarrow> (Inl e, st1)
      | (Inr whitelist, st1) \<Rightarrow>
          (case normalizeDomain domain of
             Inl e \<Rightarrow> (Inl e, st1)
           | Inr normalizedDomain \<Rightarrow>
               (let updated = filter (\<lambda>d. d \<noteq> normalizedDomain) whitelist
                in case saveWhitelist updated st1 of
                     (Inl e, st2) \<Rightarrow> (Inl e, st2)
                   | (Inr _, st2) \<Rightarrow> (Inr updated, st2))))"

text \<open>
  \<^verbatim>\<open>
  async function isCurrentDomainWhitelisted() {
    const whitelist = await getWhitelist();
    if (whitelist.length === 0) { return true; }
    const currentDomain = normalizeDomain(window.location.hostname);
    return whitelist.some((domain) => {
      if (currentDomain === domain) { return true; }
      if (isSubdomain(currentDomain, domain)) { return true; }
      return false;
    });
  }
  \<close>
  The argument \<open>hostname\<close> is \<^verbatim>\<open>window.location.hostname\<close>.
\<close>

definition isCurrentDomainWhitelisted :: "string \<Rightarrow> storage \<Rightarrow> (error + bool) \<times> storage" where
  "isCurrentDomainWhitelisted hostname st =
     (case getWhitelist st of
        (Inl e, st1) \<Rightarrow> (Inl e, st1)
      | (Inr whitelist, st1) \<Rightarrow>
          if length whitelist = 0 then (Inr True, st1)
          else (case normalizeDomain hostname of
                  Inl e \<Rightarrow> (Inl e, st1)
                | Inr currentDomain \<Rightarrow>
                    (Inr (list_ex (\<lambda>domain.
                            if currentDomain = domain then True
                            else if isSubdomain currentDomain domain then True
                            else False) whitelist), st1)))"

text \<open>The whitelist a store holds, and the stores the two mutators can produce.\<close>

definition whitelist_of :: "storage \<Rightarrow> string list" where
  "whitelist_of st = (case domainWhitelist st of None \<Rightarrow> [] | Some domains \<Rightarrow> domains)"

inductive reachable :: "storage \<Rightarrow> bool" where
  initial: "reachable \<lparr>domainWhitelist = None, lastErrors = errs\<rparr>"
| added: "reachable st \<Longrightarrow> reachable (snd (addDomainToWhitelist domain st))"
| removed: "reachable st \<Longrightarrow> reachable (snd (removeDomainFromWhitelist domain st))"

section \<open>The cookie access proxy (background service worker)\<close>

subsection \<open>The host environment\<close>

text \<open>
  What the scripts read of a \<^verbatim>\<open>URL\<close> object. The constructor \<^verbatim>\<open>new URL(s)\<close> of the platform is
  a parameter \<open>parseURL\<close> of the model; it gives \<open>None\<close> where the constructor throws.
\<close>

record url =
  url_origin :: string
  url_hostname :: string
  url_protocol :: string

record cookie =
  cookie_name :: string
  cookie_value :: string
  cookie_domain :: string
  cookie_path :: string
  cookie_secure :: bool
  cookie_sameSite :: string

text \<open>The argument of \<^verbatim>\<open>chrome.cookies.set\<close>.\<close>

record set_details =
  set_url :: string
  set_name :: "string option"
  set_value :: "string option"
  set_domain :: string
  set_path :: string
  set_secure :: bool
  set_sameSite :: string

record tab =
  tab_id :: nat
  tab_url :: "string option"

record sender =
  sender_tab :: "tab option"

text \<open>
  A message of the content script: \<^verbatim>\<open>{type, url, name, value}\<close>, the last two absent in some
  messages.
\<close>

record request =
  req_type :: string
  req_url :: string
  req_name :: "string option"
  req_value :: "string option"

text \<open>
  A response: \<^verbatim>\<open>{success, error}\<close>, \<^verbatim>\<open>{success, cookie}\<close>, \<^verbatim>\<open>{success, result}\<close> or
  \<^verbatim>\<open>{success, cookies}\<close>.
\<close>

record response =
  resp_success :: bool
  resp_error :: "string option"
  resp_cookie :: "cookie option"
  resp_result :: "cookie option"
  resp_cookies :: "cookie list option"

text \<open>
  The cookie store behind \<^verbatim>\<open>chrome.cookies\<close> is a parameter as well: four operations on a
  store of any type, each of which resolves (\<open>Inr\<close>) or rejects (\<open>Inl\<close>).
\<close>

record 's cookies_api =
  api_get :: "string \<Rightarrow> string option \<Rightarrow> 's \<Rightarrow> (error + cookie option) \<times> 's"
  api_remove :: "string \<Rightarrow> string option \<Rightarrow> 's \<Rightarrow> (error + unit) \<times> 's"
  api_set :: "set_details \<Rightarrow> 's \<Rightarrow> (error + cookie option) \<times> 's"
  api_getAll :: "string \<Rightarrow> 's \<Rightarrow> (error + cookie list) \<times> 's"

text \<open>Every call of the host API is recorded, in order.\<close>

datatype api_call =
    CookiesGet string "string option"
  | CookiesRemove string "string option"
  | CookiesSet set_details
  | CookiesGetAll string
  | TabsQuery
  | TabsSendMessage nat string

text \<open>
  The state of the privileged process: the cookie store, what \<^verbatim>\<open>chrome.tabs.query({})\<close> gives
  (the open tabs, or a rejection), and the calls made so far.
\<close>

record 's world =
  cookie_store :: 's
  open_tabs :: "error + tab list"
  calls :: "api_call list"

definition cookies_get ::
  "'s cookies_api \<Rightarrow> string \<Rightarrow> string option \<Rightarrow> 's world \<Rightarrow> (error + cookie option) \<times> 's world" where
  "cookies_get api u n w =
     (case api_get api u n (cookie_store w) of
        (r, s) \<Rightarrow> (r, w\<lparr>cookie_store := s, calls := calls w @ [CookiesGet u n]\<rparr>))"

definition cookies_remove ::
  "'s cookies_api \<Rightarrow> string \<Rightarrow> string option \<Rightarrow> 's world \<Rightarrow> (error + unit) \<times> 's world" where
  "cookies_remove api u n w =
     (case api_remove api u n (cookie_store w) of
        (r, s) \<Rightarrow> (r, w\<lparr>cookie_store := s, calls := calls w @ [CookiesRemove u n]\<rparr>))"

definition cookies_set ::
  "'s cookies_api \<Rightarrow> set_details \<Rightarrow> 's world \<Rightarrow> (error + cookie option) \<times> 's world" where
  "cookies_set api d w =
     (case api_set api d (cookie_store w) of
        (r, s) \<Rightarrow> (r, w\<lparr>cookie_store := s, calls := calls w @ [CookiesSet d]\<rparr>))"

definition cookies_getAll ::
  "'s cookies_api \<Rightarrow> string \<Rightarrow> 's world \<Rightarrow> (error + cookie list) \<times> 's world" where
  "cookies_getAll api u w =
     (case api_getAll api u (cookie_store w) of
        (r, s) \<Rightarrow> (r, w\<lparr>cookie_store := s, calls := calls w @ [CookiesGetAll u]\<rparr>))"

subsection \<open>The script\<close>

definition GET_COOKIE :: string where "GET_COOKIE = ''GET_COOKIE''"

definition SET_COOKIE :: string where "SET_COOKIE = ''SET_COOKIE''"

definition GET_ALL_COOKIES :: string where "GET_ALL_COOKIES = ''GET_ALL_COOKIES''"

text \<open>
  \<^verbatim>\<open>async function getCookie(url, name) { return await chrome.cookies.get({ url, name }); }\<close>
  (the function of this name in the background script).
\<close>

definition getCookie_background ::
  "'s cookies_api \<Rightarrow> string \<Rightarrow> string option \<Rightarrow> 's world \<Rightarrow> (error + cookie option) \<times> 's world" where
  "getCookie_background api u n w = cookies_get api u n w"

text \<open>The message of the \<^verbatim>\<open>TypeError\<close> that \<^verbatim>\<open>new URL\<close> throws.\<close>

definition invalid_url_message :: string where
  "invalid_url_message = ''Invalid URL''"

text \<open>
  \<^verbatim>\<open>
  async function setCookie(url, name, value) {
    const urlObj = new URL(url);
    try { await chrome.cookies.remove({ url: url, name: name }); }
    catch (e) { /* Cookie might not exist, continue */ }
    return await chrome.cookies.set({
      url: url, name: name, value: value, domain: urlObj.hostname, path: '/',
      secure: urlObj.protocol === 'https:', sameSite: 'lax' });
  }
  \<close>
\<close>

definition setCookie ::
  "'s cookies_api \<Rightarrow> (string \<Rightarrow> url option) \<Rightarrow> string \<Rightarrow> string option \<Rightarrow> string option \<Rightarrow>
   's world \<Rightarrow> (error + cookie option) \<times> 's world" where
  "setCookie api parseURL u n v w =
     (case parseURL u of
        None \<Rightarrow> (Inl (Error invalid_url_message), w)
      | Some urlObj \<Rightarrow>
          (case cookies_remove api u n w of
             (_, w1) \<Rightarrow>
               cookies_set api
                 \<lparr>set_url = u, set_name = n, set_value = v, set_domain = url_hostname urlObj,
                  set_path = ''/'', set_secure = (url_protocol urlObj = ''https:''),
                  set_sameSite = ''lax''\<rparr> w1))"

text \<open>
  \<^verbatim>\<open>async function getAllCookies(url) { return await chrome.cookies.getAll({ url }); }\<close>
\<close>

definition getAllCookies ::
  "'s cookies_api \<Rightarrow> string \<Rightarrow> 's world \<Rightarrow> (error + cookie list) \<times> 's world" where
  "getAllCookies api u w = cookies_getAll api u w"

text \<open>
  \<^verbatim>\<open>
  async function notifyTabsOfChange(url) {
    try {
      const urlObj = new URL(url);
      const tabs = await chrome.tabs.query({});
      const notifications = tabs
        .filter(tab => {
          if (!tab.url) return false;
          try { const tabUrl = new URL(tab.url); return tabUrl.origin === urlObj.origin; }
          catch { return false; }
        })
        .map(tab => chrome.tabs.sendMessage(tab.id, { type: 'COOKIE_CHANGED', url }).catch(() => {}));
      await Promise.allSettled(notifications);
    } catch (error) { console.error('Failed to notify tabs of cookie change:', error); }
  }
  \<close>
\<close>

definition notifyTabsOfChange :: "(string \<Rightarrow> url option) \<Rightarrow> string \<Rightarrow> 's world \<Rightarrow> 's world" where
  "notifyTabsOfChange parseURL u w =
     (case parseURL u of
        None \<Rightarrow> w
      | Some urlObj \<Rightarrow>
          (case open_tabs w of
             Inl e \<Rightarrow> w\<lparr>calls := calls w @ [TabsQuery]\<rparr>
           | Inr tabs \<Rightarrow>
               w\<lparr>calls := calls w @ [TabsQuery] @
                    map (\<lambda>t. TabsSendMessage (tab_id t) u)
                      (filter (\<lambda>t. case tab_url t of
                                     None \<Rightarrow> False
                                   | Some tu \<Rightarrow>
                                       if tu = [] then False
                                       else (case parseURL tu of
                                               None \<Rightarrow> False
                                             | Some tabUrl \<Rightarrow> url_origin tabUrl = url_origin urlObj))
                         tabs)\<rparr>))"

text \<open>\<^verbatim>\<open>{ success: false, error: reason }\<close>\<close>

definition failure :: "string \<Rightarrow> response" where
  "failure reason =
     \<lparr>resp_success = False, resp_error = Some reason, resp_cookie = None, resp_result = None,
      resp_cookies = None\<rparr>"

text \<open>
  \<^verbatim>\<open>
  chrome.runtime.onMessage.addListener((request, sender, sendResponse) => {
    (async () => {
      try {
        if (!sender.tab || !sender.tab.url) {
          sendResponse({ success: false, error: 'Invalid sender' }); return; }
        let senderUrl, requestUrl;
        try { senderUrl = new URL(sender.tab.url); requestUrl = new URL(request.url); }
        catch (e) { sendResponse({ success: false, error: 'Invalid URL format' }); return; }
        if (senderUrl.origin !== requestUrl.origin) {
          sendResponse({ success: false, error: 'Origin mismatch' }); return; }
        switch (request.type) {
          case GET_COOKIE:
            const cookie = await getCookie(request.url, request.name);
            sendResponse({ success: true, cookie }); break;
          case SET_COOKIE:
            const result = await setCookie(request.url, request.name, request.value);
            notifyTabsOfChange(request.url);
            sendResponse({ success: true, result }); break;
          case GET_ALL_COOKIES:
            const cookies = await getAllCookies(request.url);
            sendResponse({ success: true, cookies }); break;
          default:
            sendResponse({ success: false, error: 'Unknown message type' });
        }
      } catch (error) { sendResponse({ success: false, error: error.message }); }
    })();
    return true;
  });
  \<close>
  \<open>dispatch\<close> is the \<^verbatim>\<open>switch\<close> with the outer \<^verbatim>\<open>catch\<close>, \<open>onMessage\<close> the listener; both give
  the response sent and the state left behind.
\<close>

definition dispatch ::
  "'s cookies_api \<Rightarrow> (string \<Rightarrow> url option) \<Rightarrow> request \<Rightarrow> 's world \<Rightarrow> response \<times> 's world" where
  "dispatch api parseURL request w =
     (if req_type request = GET_COOKIE then
        (case getCookie_background api (req_url request) (req_name request) w of
           (Inl (Error message), w') \<Rightarrow> (failure message, w')
         | (Inr cookie, w') \<Rightarrow>
             (\<lparr>resp_success = True, resp_error = None, resp_cookie = cookie,
               resp_result = None, resp_cookies = None\<rparr>, w'))
      else if req_type request = SET_COOKIE then
        (case setCookie api parseURL (req_url request) (req_name request) (req_value request) w of
           (Inl (Error message), w') \<Rightarrow> (failure message, w')
         | (Inr result, w') \<Rightarrow>
             (\<lparr>resp_success = True, resp_error = None, resp_cookie = None,
               resp_result = result, resp_cookies = None\<rparr>,
              notifyTabsOfChange parseURL (req_url request) w'))
      else if req_type request = GET_ALL_COOKIES then
        (case getAllCookies api (req_url request) w of
           (Inl (Error message), w') \<Rightarrow> (failure message, w')
         | (Inr cookies, w') \<Rightarrow>
             (\<lparr>resp_success = True, resp_error = None, resp_cookie = None,
               resp_result = None, resp_cookies = Some cookies\<rparr>, w'))
      else (failure ''Unknown message type'', w))"

definition onMessage ::
  "'s cookies_api \<Rightarrow> (string \<Rightarrow> url option) \<Rightarrow> request \<Rightarrow> sender \<Rightarrow> 's world \<Rightarrow>
   response \<times> 's world" where
  "onMessage api parseURL request sndr w =
     (case sender_tab sndr of
        None \<Rightarrow> (failure ''Invalid sender'', w)
      | Some t \<Rightarrow>
          (case tab_url t of
             None \<Rightarrow> (failure ''Invalid sender'', w)
           | Some tu \<Rightarrow>
               if tu = [] then (failure ''Invalid sender'', w)
               else (case parseURL tu of
                       None \<Rightarrow> (failure ''Invalid URL format'', w)
                     | Some senderUrl \<Rightarrow>
                         (case parseURL (req_url request) of
                            None \<Rightarrow> (failure ''Invalid URL format'', w)
                          | Some requestUrl \<Rightarrow>
                              if url_origin senderUrl \<noteq> url_origin requestUrl
                              then (failure ''Origin mismatch'', w)
                              else dispatch api parseURL request w))))"

subsection \<open>An environment for the examples\<close>

text \<open>The URLs of the examples, as the \<^verbatim>\<open>URL\<close> constructor reads them.\<close>

definition example_parseURL :: "string \<Rightarrow> url option" where
  "example_parseURL =
     map_of
       [(''https://shop.example.com/cart'',
           \<lparr>url_origin = ''https://shop.example.com'', url_hostname = ''shop.example.com'',
            url_protocol = ''https:''\<rparr>),
        (''https://shop.example.com/'',
           \<lparr>url_origin = ''https://shop.example.com'', url_hostname = ''shop.example.com'',
            url_protocol = ''https:''\<rparr>),
        (''https://evil.example.net/'',
           \<lparr>url_origin = ''https://evil.example.net'', url_hostname = ''evil.example.net'',
            url_protocol = ''https:''\<rparr>)]"

text \<open>A cookie store that keeps the cookies of one site in a list.\<close>

definition jar :: "(cookie list) cookies_api" where
  "jar =
     \<lparr>api_get = (\<lambda>u n s. (Inr (find (\<lambda>c. Some (cookie_name c) = n) s), s)),
      api_remove = (\<lambda>u n s. (Inr (), filter (\<lambda>c. Some (cookie_name c) \<noteq> n) s)),
      api_set = (\<lambda>d s.
        case (set_name d, set_value d) of
          (Some n, Some v) \<Rightarrow>
            (Inr (Some \<lparr>cookie_name = n, cookie_value = v, cookie_domain = set_domain d,
                        cookie_path = set_path d, cookie_secure = set_secure d,
                        cookie_sameSite = set_sameSite d\<rparr>),
             s @ [\<lparr>cookie_name = n, cookie_value = v, cookie_domain = set_domain d,
                   cookie_path = set_path d, cookie_secure = set_secure d,
                   cookie_sameSite = set_sameSite d\<rparr>])
        | _ \<Rightarrow> (Inl (Error ''Missing cookie name or value''), s)),
      api_getAll = (\<lambda>u s. (Inr s, s))\<rparr>"

definition example_world :: "(cookie list) world" where
  "example_world =
     \<lparr>cookie_store = [],
      open_tabs = Inr [\<lparr>tab_id = 7, tab_url = Some ''https://shop.example.com/cart''\<rparr>,
                       \<lparr>tab_id = 8, tab_url = Some ''https://evil.example.net/''\<rparr>],
      calls = []\<rparr>"

definition example_sender :: sender where
  "example_sender =
     \<lparr>sender_tab = Some \<lparr>tab_id = 7, tab_url = Some ''https://shop.example.com/cart''\<rparr>\<rparr>"

section \<open>The cookie manager (cookie-manager.js)\<close>

definition DEVICE_TYPES :: "string list" where
  "DEVICE_TYPES = [''desktop'', ''mobile'', ''app'']"

definition MESSAGE_TIMEOUT_MS :: nat where
  "MESSAGE_TIMEOUT_MS = 5000"

text \<open>A natural number in a template literal: its decimal digits.\<close>

fun show_nat :: "nat \<Rightarrow> string" where
  "show_nat n =
     (if n < 10 then [char_of (48 + n)]
      else show_nat (n div 10) @ [char_of (48 + n mod 10)])"

declare show_nat.simps [simp del]

text \<open>
  What happens to a message sent with \<^verbatim>\<open>chrome.runtime.sendMessage\<close>: the timer fires first,
  or the callback runs first and finds \<^verbatim>\<open>chrome.runtime.lastError\<close> (set or not) and a response
  (or none).
\<close>

datatype delivery = TimedOut | Responded "string option" "response option"

text \<open>
  \<^verbatim>\<open>
  async function sendMessageToBackground(message, timeout = MESSAGE_TIMEOUT_MS) {
    return new Promise((resolve, reject) => {
      const timer = setTimeout(() => {
        reject(new Error(`Timeout waiting for response to ${message.type} after ${timeout}ms`));
      }, timeout);
      chrome.runtime.sendMessage(message, (response) => {
        clearTimeout(timer);
        if (chrome.runtime.lastError) {
          reject(new Error(`Chrome runtime error: ${chrome.runtime.lastError.message}`));
        } else if (!response) {
          reject(new Error('No response received from background script'));
        } else if (response.success) { resolve(response); }
        else { reject(new Error(response.error || `Operation ${message.type} failed`)); }
      });
    });
  }
  \<close>
\<close>

definition sendMessageToBackground :: "request \<Rightarrow> nat \<Rightarrow> delivery \<Rightarrow> error + response" where
  "sendMessageToBackground message timeout d =
     (case d of
        TimedOut \<Rightarrow>
          Inl (Error (''Timeout waiting for response to '' @ req_type message @ '' after '' @
                      show_nat timeout @ ''ms''))
      | Responded lastError response \<Rightarrow>
          (case lastError of
             Some m \<Rightarrow> Inl (Error (''Chrome runtime error: '' @ m))
           | None \<Rightarrow>
               (case response of
                  None \<Rightarrow> Inl (Error ''No response received from background script'')
                | Some r \<Rightarrow>
                    if resp_success r then Inr r
                    else Inl (Error (case resp_error r of
                                       None \<Rightarrow> ''Operation '' @ req_type message @ '' failed''
                                     | Some e \<Rightarrow>
                                         if e = [] then ''Operation '' @ req_type message @ '' failed''
                                         else e)))))"

text \<open>\<^verbatim>\<open>c?.value\<close> when it is truthy: the value of a cookie that is there, unless it is empty.\<close>

definition truthy_value :: "cookie option \<Rightarrow> string option" where
  "truthy_value c =
     (case c of
        None \<Rightarrow> None
      | Some k \<Rightarrow> if cookie_value k = [] then None else Some (cookie_value k))"

text \<open>
  \<^verbatim>\<open>
  async function getCurrentDevice() {
    const url = window.location.href;
    try {
      const response = await sendMessageToBackground({ type: GET_ALL_COOKIES, url: url });
      if (response && response.cookies) {
        const deviceOutputCookie = response.cookies.find((c) => c.name === 'deviceoutput');
        const deviceTypeCookie = response.cookies.find((c) => c.name === 'devicetype');
        const deviceValue = deviceOutputCookie?.value || deviceTypeCookie?.value || null;
        if (Object.values(DEVICE_TYPES).includes(deviceValue)) { return deviceValue; }
      }
      return null;
    } catch (error) { console.error('Error getting current device:', error); return null; }
  }
  \<close>
  The channel \<open>chan\<close> says what happens to a message in a state of the world; \<open>href\<close> is
  \<^verbatim>\<open>window.location.href\<close>.
\<close>

definition getCurrentDevice ::
  "(request \<Rightarrow> 'w \<Rightarrow> delivery \<times> 'w) \<Rightarrow> string \<Rightarrow> 'w \<Rightarrow> (error + string option) \<times> 'w" where
  "getCurrentDevice chan href w =
     (let message = \<lparr>req_type = GET_ALL_COOKIES, req_url = href, req_name = None,
                     req_value = None\<rparr>
      in case chan message w of
           (d, w') \<Rightarrow>
             (case sendMessageToBackground message MESSAGE_TIMEOUT_MS d of
                Inl e \<Rightarrow> (Inr None, w')
              | Inr response \<Rightarrow>
                  (case resp_cookies response of
                     None \<Rightarrow> (Inr None, w')
                   | Some cookies \<Rightarrow>
                       (let deviceOutputCookie = find (\<lambda>c. cookie_name c = ''deviceoutput'') cookies;
                            deviceTypeCookie = find (\<lambda>c. cookie_name c = ''devicetype'') cookies;
                            deviceValue = (case truthy_value deviceOutputCookie of
                                             Some v \<Rightarrow> Some v
                                           | None \<Rightarrow> truthy_value deviceTypeCookie)
                        in case deviceValue of
                             None \<Rightarrow> (Inr None, w')
                           | Some v \<Rightarrow>
                               if v \<in> set DEVICE_TYPES then (Inr (Some v), w')
                               else (Inr None, w')))))"

text \<open>
  \<^verbatim>\<open>
  async function setDeviceType(deviceType) {
    const url = window.location.href;
    if (!Object.values(DEVICE_TYPES).includes(deviceType)) {
      throw new Error(`Invalid device type: ${deviceType}`);
    }
    try {
      await sendMessageToBackground({ type: SET_COOKIE, url: url, name: 'deviceoutput', value: deviceType });
      await sendMessageToBackground({ type: SET_COOKIE, url: url, name: 'devicetype', value: deviceType });
      return true;
    } catch (error) { console.error('Error setting device type:', error); throw error; }
  }
  \<close>
\<close>

definition setDeviceType ::
  "(request \<Rightarrow> 'w \<Rightarrow> delivery \<times> 'w) \<Rightarrow> string \<Rightarrow> string \<Rightarrow> 'w \<Rightarrow> (error + bool) \<times> 'w" where
  "setDeviceType chan href deviceType w =
     (if deviceType \<notin> set DEVICE_TYPES
      then (Inl (Error (''Invalid device type: '' @ deviceType)), w)
      else
        (let first = \<lparr>req_type = SET_COOKIE, req_url = href, req_name = Some ''deviceoutput'',
                       req_value = Some deviceType\<rparr>;
             second = \<lparr>req_type = SET_COOKIE, req_url = href, req_name = Some ''devicetype'',
                        req_value = Some deviceType\<rparr>
         in case chan first w of
              (d1, w1) \<Rightarrow>
                (case sendMessageToBackground first MESSAGE_TIMEOUT_MS d1 of
                   Inl e \<Rightarrow> (Inl e, w1)
                 | Inr _ \<Rightarrow>
                     (case chan second w1 of
                        (d2, w2) \<Rightarrow>
                          (case sendMessageToBackground second MESSAGE_TIMEOUT_MS d2 of
                             Inl e \<Rightarrow> (Inl e, w2)
                           | Inr _ \<Rightarrow> (Inr True, w2))))))"

text \<open>
  \<^verbatim>\<open>
  async function getCookie(name) {
    const url = window.location.href;
    try {
      const response = await sendMessageToBackground({ type: GET_COOKIE, url: url, name: name });
      return response?.cookie?.value || null;
    } catch (error) { console.error(`Error getting cookie ${name}:`, error); return null; }
  }
  \<close>
\<close>

definition getCookie ::
  "(request \<Rightarrow> 'w \<Rightarrow> delivery \<times> 'w) \<Rightarrow> string \<Rightarrow> string \<Rightarrow> 'w \<Rightarrow> (error + string option) \<times> 'w" where
  "getCookie chan href n w =
     (let message = \<lparr>req_type = GET_COOKIE, req_url = href, req_name = Some n,
                     req_value = None\<rparr>
      in case chan message w of
           (d, w') \<Rightarrow>
             (case sendMessageToBackground message MESSAGE_TIMEOUT_MS d of
                Inl e \<Rightarrow> (Inr None, w')
              | Inr response \<Rightarrow> (Inr (truthy_value (resp_cookie response)), w')))"

text \<open>
  The channel on which every message reaches the listener of the proxy and its response
  comes back in time.
\<close>

definition proxy_channel ::
  "'s cookies_api \<Rightarrow> (string \<Rightarrow> url option) \<Rightarrow> sender \<Rightarrow> request \<Rightarrow> 's world \<Rightarrow>
   delivery \<times> 's world" where
  "proxy_channel api parseURL sndr message w =
     (case onMessage api parseURL message sndr w of
        (r, w') \<Rightarrow> (Responded None (Some r), w'))"

text \<open>
  The failures of the channel and of the proxy: a timeout, a transport error, an empty
  response, a response that reports no success.
\<close>

definition delivery_failed :: "delivery \<Rightarrow> bool" where
  "delivery_failed d =
     (case d of
        TimedOut \<Rightarrow> True
      | Responded lastError response \<Rightarrow>
          lastError \<noteq> None \<or>
          (case response of None \<Rightarrow> True | Some r \<Rightarrow> \<not> resp_success r))"

text \<open>A channel that answers every message with the same delivery.\<close>

definition constant_channel :: "delivery \<Rightarrow> request \<Rightarrow> unit \<Rightarrow> delivery \<times> unit" where
  "constant_channel d message w = (d, w)"

definition cookies_response :: "cookie list \<Rightarrow> response" where
  "cookies_response cs =
     \<lparr>resp_success = True, resp_error = None, resp_cookie = None, resp_result = None,
      resp_cookies = Some cs\<rparr>"

definition cookie_response :: "cookie option \<Rightarrow> response" where
  "cookie_response c =
     \<lparr>resp_success = True, resp_error = None, resp_cookie = c, resp_result = None,
      resp_cookies = None\<rparr>"

definition example_cookie :: "string \<Rightarrow> string \<Rightarrow> cookie" where
  "example_cookie n v =
     \<lparr>cookie_name = n, cookie_value = v, cookie_domain = ''shop.example.com'',
      cookie_path = ''/'', cookie_secure = True, cookie_sameSite = ''lax''\<rparr>"

text \<open>
  The details with which the proxy writes a device cookie for the page at \<open>href\<close>, and the
  error that \<open>sendMessageToBackground\<close> raises for a write that the proxy reports as failed.
\<close>

definition device_cookie_details :: "string \<Rightarrow> url \<Rightarrow> string \<Rightarrow> string \<Rightarrow> set_details" where
  "device_cookie_details href urlObj n v =
     \<lparr>set_url = href, set_name = Some n, set_value = Some v, set_domain = url_hostname urlObj,
      set_path = ''/'', set_secure = (url_protocol urlObj = ''https:''), set_sameSite = ''lax''\<rparr>"

fun reported :: "error \<Rightarrow> error" where
  "reported (Error m) = Error (if m = [] then ''Operation SET_COOKIE failed'' else m)"

text \<open>The store of the examples, refusing to write the cookie of one name.\<close>

definition failing_jar :: "string \<Rightarrow> (cookie list) cookies_api" where
  "failing_jar n =
     jar\<lparr>api_set := (\<lambda>d s. if set_name d = Some n then (Inl (Error ''Quota exceeded''), s)
                           else api_set jar d s)\<rparr>"

section \<open>Properties of split and join\<close>

lemma split_not_Nil: "split sep s \<noteq> []"
  by (induction s) (auto split: list.splits)

lemma length_split_pos: "0 < length (split sep s)"
  using split_not_Nil [of sep s] by simp

lemma join_Cons: "ps \<noteq> [] \<Longrightarrow> join sep (p # ps) = p @ sep # join sep ps"
  by (cases ps) simp_all

lemma join_split: "join sep (split sep s) = s"
proof (induction s)
  case Nil
  show ?case by simp
next
  case (Cons c cs)
  show ?case
  proof (cases "c = sep")
    case True
    with Cons show ?thesis by (simp add: join_Cons split_not_Nil)
  next
    case False
    obtain p ps where sp: "split sep cs = p # ps"
      using split_not_Nil [of sep cs] by (cases "split sep cs") auto
    with Cons have "join sep (p # ps) = cs" by simp
    then have "join sep ((c # p) # ps) = c # cs" by (cases ps) auto
    with False sp show ?thesis by simp
  qed
qed

lemma split_free: "p \<in> set (split sep s) \<Longrightarrow> sep \<notin> set p"
proof (induction s arbitrary: p)
  case Nil
  then show ?case by simp
next
  case (Cons c cs)
  show ?case
  proof (cases "c = sep")
    case True
    with Cons show ?thesis by auto
  next
    case False
    obtain q qs where sp: "split sep cs = q # qs"
      using split_not_Nil [of sep cs] by (cases "split sep cs") auto
    with False Cons.prems have "p = c # q \<or> p \<in> set qs" by simp
    moreover have "sep \<notin> set q" using Cons.IH [of q] sp by simp
    moreover have "p \<in> set qs \<Longrightarrow> sep \<notin> set p" using Cons.IH [of p] sp by simp
    ultimately show ?thesis using False by auto
  qed
qed

lemma split_single: "sep \<notin> set p \<Longrightarrow> split sep p = [p]"
  by (induction p) auto

lemma split_append_sep: "sep \<notin> set p \<Longrightarrow> split sep (p @ sep # s) = p # split sep s"
  by (induction p) auto

lemma split_join:
  "ps \<noteq> [] \<Longrightarrow> (\<And>p. p \<in> set ps \<Longrightarrow> sep \<notin> set p) \<Longrightarrow> split sep (join sep ps) = ps"
proof (induction ps rule: join.induct)
  case (1 sep)
  then show ?case by simp
next
  case (2 sep p)
  then show ?case by (simp add: split_single)
next
  case (3 sep p q ps)
  then show ?case by (simp add: split_append_sep)
qed

lemma last_labels_drop: "last_labels k ls = drop (length ls - k) ls"
  by (simp add: last_labels_def rev_take)

lemma isSubdomain_iff_labelwise: "isSubdomain c p = isSubdomain_labelwise c p"
proof -
  let ?cs = "split CHR ''.'' c" and ?ps = "split CHR ''.'' p"
  let ?suffix = "drop (length ?cs - length ?ps) ?cs"
  have k: "length ?ps \<noteq> 0" using length_split_pos [of "CHR ''.''" p] by simp
  have eq: "(join CHR ''.'' ?suffix = p) = (?suffix = ?ps)" if lt: "length ?ps < length ?cs"
  proof
    assume j: "join CHR ''.'' ?suffix = p"
    have "length ?suffix = length ?ps" using lt by simp
    with k have ne: "?suffix \<noteq> []" by auto
    have free: "\<And>l. l \<in> set ?suffix \<Longrightarrow> CHR ''.'' \<notin> set l"
      using split_free [of _ "CHR ''.''" c] by (meson in_set_dropD)
    from split_join [OF ne free] j show "?suffix = ?ps" by simp
  next
    assume "?suffix = ?ps"
    then show "join CHR ''.'' ?suffix = p" by (simp add: join_split)
  qed
  show ?thesis
    using eq k
    by (auto simp: isSubdomain_def isSubdomain_labelwise_def Let_def slice_neg_def
        last_labels_drop)
qed

section \<open>Derivatives compute the language\<close>


lemma Nil_in_conc: "([] \<in> conc A B) = ([] \<in> A \<and> [] \<in> B)"
  by (auto simp: conc_def)

lemma concI: "u \<in> A \<Longrightarrow> v \<in> B \<Longrightarrow> u @ v \<in> conc A B"
  by (auto simp: conc_def)

lemma concE: "w \<in> conc A B \<Longrightarrow> (\<And>u v. w = u @ v \<Longrightarrow> u \<in> A \<Longrightarrow> v \<in> B \<Longrightarrow> P) \<Longrightarrow> P"
  by (auto simp: conc_def)

lemma conc_assoc: "conc (conc A B) C = conc A (conc B C)"
proof (rule set_eqI)
  fix w
  show "(w \<in> conc (conc A B) C) = (w \<in> conc A (conc B C))"
  proof
    assume "w \<in> conc (conc A B) C"
    then obtain u v x where "w = (u @ v) @ x" "u \<in> A" "v \<in> B" "x \<in> C"
      by (auto simp: conc_def)
    then show "w \<in> conc A (conc B C)"
      using concI [of u A "v @ x" "conc B C"] concI [of v B x C] by simp
  next
    assume "w \<in> conc A (conc B C)"
    then obtain u v x where "w = u @ (v @ x)" "u \<in> A" "v \<in> B" "x \<in> C"
      by (auto simp: conc_def)
    then show "w \<in> conc (conc A B) C"
      using concI [of "u @ v" "conc A B" x C] concI [of u A v B] by simp
  qed
qed

lemma Deriv_conc:
  "Deriv c (conc A B) = conc (Deriv c A) B \<union> (if [] \<in> A then Deriv c B else {})"
proof (rule set_eqI)
  fix w
  show "(w \<in> Deriv c (conc A B)) =
        (w \<in> conc (Deriv c A) B \<union> (if [] \<in> A then Deriv c B else {}))"
  proof
    assume "w \<in> Deriv c (conc A B)"
    then obtain u v where uv: "c # w = u @ v" "u \<in> A" "v \<in> B"
      by (auto simp: Deriv_def conc_def)
    show "w \<in> conc (Deriv c A) B \<union> (if [] \<in> A then Deriv c B else {})"
    proof (cases u)
      case Nil
      with uv show ?thesis by (simp add: Deriv_def)
    next
      case (Cons a u')
      with uv have "w = u' @ v" "c # u' \<in> A" by simp_all
      then have "w \<in> conc (Deriv c A) B"
        using uv(3) by (auto simp: conc_def Deriv_def)
      then show ?thesis by simp
    qed
  next
    assume r: "w \<in> conc (Deriv c A) B \<union> (if [] \<in> A then Deriv c B else {})"
    show "w \<in> Deriv c (conc A B)"
    proof (cases "w \<in> conc (Deriv c A) B")
      case True
      then obtain u v where "w = u @ v" "c # u \<in> A" "v \<in> B"
        by (auto simp: conc_def Deriv_def)
      then have "c # w = (c # u) @ v" by simp
      then show ?thesis
        unfolding Deriv_def using concI [OF \<open>c # u \<in> A\<close> \<open>v \<in> B\<close>] by simp
    next
      case False
      with r have "[] \<in> A" "c # w \<in> B" by (auto simp: Deriv_def split: if_splits)
      then show ?thesis
        unfolding Deriv_def using concI [of "[]" A "c # w" B] by simp
    qed
  qed
qed

lemma star_Cons_split:
  "x \<in> star A \<Longrightarrow> x = c # w \<Longrightarrow> w \<in> conc (Deriv c A) (star A)"
proof (induction arbitrary: w rule: star.induct)
  case star_Nil
  then show ?case by simp
next
  case (star_app u v)
  show ?case
  proof (cases u)
    case Nil
    with star_app show ?thesis by simp
  next
    case (Cons a u')
    with star_app.prems have "a = c" "w = u' @ v" by simp_all
    with Cons star_app.hyps show ?thesis
      by (auto simp: conc_def Deriv_def)
  qed
qed

lemma Deriv_star: "Deriv c (star A) = conc (Deriv c A) (star A)"
proof (rule set_eqI)
  fix w
  show "(w \<in> Deriv c (star A)) = (w \<in> conc (Deriv c A) (star A))"
  proof
    assume "w \<in> Deriv c (star A)"
    then show "w \<in> conc (Deriv c A) (star A)"
      using star_Cons_split [of "c # w" A c w] by (simp add: Deriv_def)
  next
    assume "w \<in> conc (Deriv c A) (star A)"
    then obtain u v where "w = u @ v" "c # u \<in> A" "v \<in> star A"
      by (auto simp: conc_def Deriv_def)
    then show "w \<in> Deriv c (star A)"
      using star_app [of "c # u" A v] by (simp add: Deriv_def)
  qed
qed

lemma nullable_lang: "nullable r = ([] \<in> lang i r)"
  by (induction r) (auto simp: Nil_in_conc star_Nil)

lemma lang_deriv: "lang i (deriv i c r) = Deriv c (lang i r)"
proof (induction r)
  case Zero
  show ?case by (simp add: Deriv_def)
next
  case One
  show ?case by (simp add: Deriv_def)
next
  case (Atom cls)
  show ?case by (auto simp: Deriv_def)
next
  case (Seq r s)
  then show ?case by (simp add: Deriv_conc nullable_lang [of r i])
next
  case (Alt r s)
  then show ?case by (auto simp: Deriv_def)
next
  case (Star r)
  then show ?case by (simp add: Deriv_star)
qed

lemma lang_derivs: "(w \<in> lang i (derivs i s r)) = (s @ w \<in> lang i r)"
  by (induction s arbitrary: r) (simp_all add: lang_deriv Deriv_def)

lemma test_lang: "test i r s = (s \<in> lang i r)"
  using lang_derivs [of "[]" i s r] by (simp add: test_def nullable_lang [of _ i])

section \<open>Character classes\<close>

lemma code_less: "code c < 256"
  by (simp add: code_def)

lemma code_char_of: "code (char_of n) = n mod 256"
  by (simp add: code_def)

lemma code_eq_iff: "(code a = code b) = (a = b)"
  by (simp add: code_def)

lemma code_literals:
  "code CHR ''a'' = 97" "code CHR ''z'' = 122" "code CHR ''0'' = 48" "code CHR ''9'' = 57"
  "code CHR ''-'' = 45" "code CHR ''.'' = 46" "code CHR ''/'' = 47" "code CHR '':'' = 58"
  by (simp_all add: code_def)

lemma hyphen_iff: "(c = CHR ''-'') = (code c = 45)"
  using code_eq_iff [of c "CHR ''-''"] by (simp add: code_literals)

lemma dot_iff: "(c = CHR ''.'') = (code c = 46)"
  using code_eq_iff [of c "CHR ''.''"] by (simp add: code_literals)

lemma code_toLowerCase_char:
  "code (toLowerCase_char c) =
     (if (65 \<le> code c \<and> code c \<le> 90) \<or> (192 \<le> code c \<and> code c \<le> 222 \<and> code c \<noteq> 215)
      then code c + 32 else code c)"
  using code_less [of c] by (simp add: toLowerCase_char_def code_char_of)

lemma code_toUpperCase_char:
  "code (toUpperCase_char c) =
     (if (97 \<le> code c \<and> code c \<le> 122) \<or> (224 \<le> code c \<and> code c \<le> 254 \<and> code c \<noteq> 247)
      then code c - 32 else code c)"
  using code_less [of c] by (simp add: toUpperCase_char_def code_char_of)

lemma in_class_alnum:
  "in_class [Range CHR ''a'' CHR ''z'', Range CHR ''0'' CHR ''9''] c =
     (isLowerLetter c \<or> isDigit c)"
  by (simp add: in_class_def code_literals isLowerLetter_def isDigit_def)

lemma in_class_alnumHyphen:
  "in_class [Range CHR ''a'' CHR ''z'', Range CHR ''0'' CHR ''9'', Single CHR ''-''] c =
     (isLowerLetter c \<or> isDigit c \<or> c = CHR ''-'')"
  by (simp add: in_class_def code_literals isLowerLetter_def isDigit_def)

lemma class_alnum_i:
  "class_matches True [Range CHR ''a'' CHR ''z'', Range CHR ''0'' CHR ''9''] c = isAlnum c"
  unfolding class_matches_def in_class_alnum isAlnum_def isLowerLetter_def isUpperLetter_def
    isDigit_def code_toLowerCase_char code_toUpperCase_char
  by auto

lemma class_alnumHyphen_i:
  "class_matches True [Range CHR ''a'' CHR ''z'', Range CHR ''0'' CHR ''9'', Single CHR ''-''] c =
     isLabelChar c"
  unfolding class_matches_def in_class_alnumHyphen isLabelChar_def isAlnum_def
    isLowerLetter_def isUpperLetter_def isDigit_def hyphen_iff
    code_toLowerCase_char code_toUpperCase_char
  by auto

lemma class_alnumHyphen:
  "class_matches False [Range CHR ''a'' CHR ''z'', Range CHR ''0'' CHR ''9'', Single CHR ''-''] c =
     (isLowerLetter c \<or> isDigit c \<or> c = CHR ''-'')"
  by (simp add: class_matches_def in_class_alnumHyphen)

lemma class_dot: "class_matches i [Single CHR ''.''] c = (c = CHR ''.'')"
  unfolding class_matches_def in_class_def
  by (auto simp: dot_iff code_toLowerCase_char code_toUpperCase_char)

section \<open>The languages of the two patterns\<close>

lemma lang_Atom: "(s \<in> lang i (Atom cls)) = (\<exists>c. s = [c] \<and> class_matches i cls c)"
  by auto

lemma star_atoms: "(s \<in> star {[c] | c. P c}) = list_all P s"
proof
  assume "s \<in> star {[c] | c. P c}"
  then show "list_all P s"
    by (induction rule: star.induct) auto
next
  assume "list_all P s"
  then show "s \<in> star {[c] | c. P c}"
  proof (induction s)
    case Nil
    show ?case by (rule star_Nil)
  next
    case (Cons a s)
    then have "[a] \<in> {[c] | c. P c}" "s \<in> star {[c] | c. P c}" by simp_all
    then have "[a] @ s \<in> star {[c] | c. P c}" by (rule star_app)
    then show ?case by simp
  qed
qed

lemma conc_atom_left:
  "(s \<in> conc {[c] | c. P c} B) = (\<exists>a t. s = a # t \<and> P a \<and> t \<in> B)"
proof
  assume "s \<in> conc {[c] | c. P c} B"
  then show "\<exists>a t. s = a # t \<and> P a \<and> t \<in> B"
    by (auto simp: conc_def)
next
  assume "\<exists>a t. s = a # t \<and> P a \<and> t \<in> B"
  then obtain a t where "s = [a] @ t" "P a" "t \<in> B" by auto
  then show "s \<in> conc {[c] | c. P c} B"
    using concI [of "[a]" "{[c] | c. P c}" t B] by simp
qed

lemma conc_atom_right:
  "(s \<in> conc A {[c] | c. P c}) = (\<exists>t b. s = t @ [b] \<and> P b \<and> t \<in> A)"
  by (auto simp: conc_def)

lemma lang_Plus_Atom:
  "(s \<in> lang i (Plus (Atom cls))) = (s \<noteq> [] \<and> list_all (class_matches i cls) s)"
  by (cases s) (auto simp: Plus_def conc_atom_left star_atoms)

lemma lang_Upto_Atom:
  "(s \<in> lang i (Upto n (Atom cls))) = (length s \<le> n \<and> list_all (class_matches i cls) s)"
proof (induction n arbitrary: s)
  case 0
  show ?case by auto
next
  case (Suc n)
  show ?case
  proof (cases s)
    case Nil
    then show ?thesis by (simp add: Opt_def)
  next
    case (Cons a t)
    have "(s \<in> lang i (Upto (Suc n) (Atom cls))) =
          (s \<in> conc {[c] | c. class_matches i cls c} (lang i (Upto n (Atom cls))))"
      using Cons by (simp add: Opt_def)
    also have "\<dots> = (class_matches i cls a \<and> t \<in> lang i (Upto n (Atom cls)))"
      using Cons by (simp add: conc_atom_left)
    finally show ?thesis using Cons Suc.IH [of t] by auto
  qed
qed

section \<open>Labels\<close>

lemma isAlnum_not_hyphen: "isAlnum c \<Longrightarrow> c \<noteq> CHR ''-''"
  by (auto simp: isAlnum_def isLowerLetter_def isUpperLetter_def isDigit_def hyphen_iff)

lemma isLabelChar_not_dot: "isLabelChar c \<Longrightarrow> c \<noteq> CHR ''.''"
  by (auto simp: isLabelChar_def isAlnum_def isLowerLetter_def isUpperLetter_def isDigit_def
      hyphen_iff dot_iff)

lemma isLabelChar_alnum: "isLabelChar c \<Longrightarrow> c \<noteq> CHR ''-'' \<Longrightarrow> isAlnum c"
  by (simp add: isLabelChar_def)

lemma dns_label_dot_free: "dns_label l \<Longrightarrow> CHR ''.'' \<notin> set l"
  using isLabelChar_not_dot by (auto simp: dns_label_def list_all_iff)

lemma dns_label_single: "isAlnum a \<Longrightarrow> dns_label [a]"
  by (simp add: dns_label_def isLabelChar_def isAlnum_not_hyphen)

lemma dns_label_long:
  assumes "isAlnum a" "isAlnum b" "length m \<le> 61" "list_all isLabelChar m"
  shows "dns_label (a # m @ [b])"
  using assms by (simp add: dns_label_def isLabelChar_def isAlnum_not_hyphen)

lemma dns_label_cases:
  assumes "dns_label l"
  shows "(\<exists>a. l = [a] \<and> isAlnum a) \<or>
         (\<exists>a m b. l = a # m @ [b] \<and> isAlnum a \<and> isAlnum b \<and> length m \<le> 61 \<and>
            list_all isLabelChar m)"
proof (cases l)
  case Nil
  with assms show ?thesis by (simp add: dns_label_def)
next
  case (Cons a t)
  have a: "isAlnum a"
    using assms Cons by (simp add: dns_label_def isLabelChar_alnum)
  show ?thesis
  proof (cases t rule: rev_cases)
    case Nil
    with Cons a show ?thesis by simp
  next
    case (snoc m b)
    have "isAlnum b" "length m \<le> 61" "list_all isLabelChar m"
      using assms Cons snoc by (simp_all add: dns_label_def isLabelChar_alnum)
    with Cons snoc a show ?thesis by simp
  qed
qed

lemma final_label_lang:
  "(s \<in> lang True (Seq alnum (Seq (Upto 61 alnumHyphen) alnum))) =
     (dns_label s \<and> 2 \<le> length s)"
proof -
  have "(s \<in> lang True (Seq alnum (Seq (Upto 61 alnumHyphen) alnum))) =
        (\<exists>a t. s = a # t \<and> isAlnum a \<and>
           (\<exists>m b. t = m @ [b] \<and> isAlnum b \<and> length m \<le> 61 \<and> list_all isLabelChar m))"
    unfolding alnum_def alnumHyphen_def lang.simps conc_atom_left conc_atom_right
      lang_Upto_Atom class_alnum_i class_alnumHyphen_i
    by (simp add: list_all_iff)
  also have "\<dots> = (dns_label s \<and> 2 \<le> length s)"
  proof
    assume "\<exists>a t. s = a # t \<and> isAlnum a \<and>
           (\<exists>m b. t = m @ [b] \<and> isAlnum b \<and> length m \<le> 61 \<and> list_all isLabelChar m)"
    then obtain a m b where "s = a # m @ [b]" "isAlnum a" "isAlnum b" "length m \<le> 61"
      "list_all isLabelChar m" by auto
    then show "dns_label s \<and> 2 \<le> length s"
      using dns_label_long [of a b m] by simp
  next
    assume "dns_label s \<and> 2 \<le> length s"
    then show "\<exists>a t. s = a # t \<and> isAlnum a \<and>
           (\<exists>m b. t = m @ [b] \<and> isAlnum b \<and> length m \<le> 61 \<and> list_all isLabelChar m)"
      using dns_label_cases [of s] by auto
  qed
  finally show ?thesis .
qed

lemma inner_label_lang:
  "(s \<in> lang True (Seq alnum (Opt (Seq (Upto 61 alnumHyphen) alnum)))) = dns_label s"
proof -
  have "(s \<in> lang True (Seq alnum (Opt (Seq (Upto 61 alnumHyphen) alnum)))) =
        (\<exists>a t. s = a # t \<and> isAlnum a \<and>
           (t = [] \<or>
            (\<exists>m b. t = m @ [b] \<and> isAlnum b \<and> length m \<le> 61 \<and> list_all isLabelChar m)))"
    unfolding alnum_def alnumHyphen_def Opt_def lang.simps conc_atom_left Un_iff
      conc_atom_right lang_Upto_Atom class_alnum_i class_alnumHyphen_i
    by (simp add: list_all_iff)
  also have "\<dots> = dns_label s"
  proof
    assume "\<exists>a t. s = a # t \<and> isAlnum a \<and>
           (t = [] \<or>
            (\<exists>m b. t = m @ [b] \<and> isAlnum b \<and> length m \<le> 61 \<and> list_all isLabelChar m))"
    then show "dns_label s"
      using dns_label_long dns_label_single by auto
  next
    assume "dns_label s"
    then show "\<exists>a t. s = a # t \<and> isAlnum a \<and>
           (t = [] \<or>
            (\<exists>m b. t = m @ [b] \<and> isAlnum b \<and> length m \<le> 61 \<and> list_all isLabelChar m))"
      using dns_label_cases [of s] by auto
  qed
  finally show ?thesis .
qed

section \<open>Dotted sequences of labels\<close>

lemma butlast_split_Cons: "butlast (l # split sep s) = l # butlast (split sep s)"
  by (simp add: split_not_Nil)

lemma last_split_Cons: "last (l # split sep s) = last (split sep s)"
  by (simp add: split_not_Nil)

lemma dotted_star_split:
  assumes A: "\<And>l. l \<in> A \<Longrightarrow> CHR ''.'' \<notin> set l"
    and B: "\<And>f. f \<in> B \<Longrightarrow> CHR ''.'' \<notin> set f"
    and g: "g \<in> star (conc A {[c] | c. c = CHR ''.''})"
    and f: "f \<in> B"
  shows "list_all (\<lambda>l. l \<in> A) (butlast (split CHR ''.'' (g @ f))) \<and>
         last (split CHR ''.'' (g @ f)) \<in> B"
  using g
proof (induction rule: star.induct)
  case star_Nil
  show ?case using f B [OF f] by (simp add: split_single)
next
  case (star_app u v)
  from star_app.hyps(1) obtain l where u: "u = l @ [CHR ''.'']" and l: "l \<in> A"
    by (auto simp: conc_def)
  have "split CHR ''.'' ((u @ v) @ f) = l # split CHR ''.'' (v @ f)"
    using split_append_sep [OF A [OF l], of "v @ f"] u by simp
  with star_app.IH l show ?case
    by (simp add: butlast_split_Cons last_split_Cons del: butlast.simps last.simps)
qed

lemma dotted_join_star:
  "ls \<noteq> [] \<Longrightarrow> list_all (\<lambda>l. l \<in> A) (butlast ls) \<Longrightarrow> last ls \<in> B \<Longrightarrow>
   join CHR ''.'' ls \<in> conc (star (conc A {[c] | c. c = CHR ''.''})) B"
proof (induction "CHR ''.''" ls rule: join.induct)
  case 1
  then show ?case by simp
next
  case (2 p)
  then show ?case using concI [OF star_Nil, of p B] by simp
next
  case (3 p q ps)
  let ?G = "conc A {[c] | c. c = CHR ''.''}"
  from 3 have "join CHR ''.'' (q # ps) \<in> conc (star ?G) B" by simp
  then obtain g f where gf: "join CHR ''.'' (q # ps) = g @ f" "g \<in> star ?G" "f \<in> B"
    by (auto simp: conc_def)
  from 3 have "p \<in> A" by simp
  then have "p @ [CHR ''.''] \<in> ?G" by (auto simp: conc_def)
  then have "(p @ [CHR ''.'']) @ g \<in> star ?G" using gf(2) by (rule star_app)
  then have "((p @ [CHR ''.'']) @ g) @ f \<in> conc (star ?G) B" using gf(3) by (rule concI)
  then show ?case using gf(1) by simp
qed

lemma dotted_tail_lang:
  assumes A: "\<And>l. l \<in> A \<Longrightarrow> CHR ''.'' \<notin> set l"
    and B: "\<And>f. f \<in> B \<Longrightarrow> CHR ''.'' \<notin> set f"
  shows "(s \<in> conc (star (conc A {[c] | c. c = CHR ''.''})) B) =
         (list_all (\<lambda>l. l \<in> A) (butlast (split CHR ''.'' s)) \<and> last (split CHR ''.'' s) \<in> B)"
proof
  assume "s \<in> conc (star (conc A {[c] | c. c = CHR ''.''})) B"
  then obtain g f where "s = g @ f" "g \<in> star (conc A {[c] | c. c = CHR ''.''})" "f \<in> B"
    by (auto simp: conc_def)
  then show "list_all (\<lambda>l. l \<in> A) (butlast (split CHR ''.'' s)) \<and> last (split CHR ''.'' s) \<in> B"
    using dotted_star_split [of A B g f] A B by simp
next
  assume "list_all (\<lambda>l. l \<in> A) (butlast (split CHR ''.'' s)) \<and> last (split CHR ''.'' s) \<in> B"
  then show "s \<in> conc (star (conc A {[c] | c. c = CHR ''.''})) B"
    using dotted_join_star [of "split CHR ''.'' s" A B]
    by (simp add: split_not_Nil join_split)
qed

lemma dotted_lang:
  assumes A: "\<And>l. l \<in> A \<Longrightarrow> CHR ''.'' \<notin> set l"
    and B: "\<And>f. f \<in> B \<Longrightarrow> CHR ''.'' \<notin> set f"
  shows "(s \<in> conc (conc (conc A {[c] | c. c = CHR ''.''})
                          (star (conc A {[c] | c. c = CHR ''.''}))) B) =
         (2 \<le> length (split CHR ''.'' s) \<and>
          list_all (\<lambda>l. l \<in> A) (butlast (split CHR ''.'' s)) \<and> last (split CHR ''.'' s) \<in> B)"
proof -
  let ?G = "conc A {[c] | c. c = CHR ''.''}"
  let ?T = "conc (star ?G) B"
  have tail: "\<And>t. (t \<in> ?T) =
      (list_all (\<lambda>l. l \<in> A) (butlast (split CHR ''.'' t)) \<and> last (split CHR ''.'' t) \<in> B)"
    using dotted_tail_lang [of A B] A B by blast
  let ?R = "2 \<le> length (split CHR ''.'' s) \<and>
          list_all (\<lambda>l. l \<in> A) (butlast (split CHR ''.'' s)) \<and> last (split CHR ''.'' s) \<in> B"
  have fwd: ?R if "s \<in> conc ?G ?T"
  proof -
    from that obtain u t where ut: "s = u @ t" "u \<in> ?G" and t: "t \<in> ?T"
      by (rule concE)
    from ut(2) obtain l where "u = l @ [CHR ''.'']" and l: "l \<in> A"
      by (auto simp: conc_def)
    with ut(1) have s: "s = (l @ [CHR ''.'']) @ t" by simp
    have sp: "split CHR ''.'' s = l # split CHR ''.'' t"
      using split_append_sep [OF A [OF l], of t] s by simp
    have "Suc 0 \<le> length (split CHR ''.'' t)"
      using length_split_pos [of "CHR ''.''" t] by (simp only: Suc_le_eq)
    then have "2 \<le> length (split CHR ''.'' s)"
      by (simp add: sp)
    with sp l t tail [of t] show ?thesis
      by (simp add: butlast_split_Cons last_split_Cons del: butlast.simps last.simps)
  qed
  have bwd: "s \<in> conc ?G ?T" if r: ?R
  proof -
    from r obtain l q ps where sp: "split CHR ''.'' s = l # q # ps"
      by (cases "split CHR ''.'' s"; cases "tl (split CHR ''.'' s)") auto
    let ?t = "join CHR ''.'' (q # ps)"
    have s: "s = (l @ [CHR ''.'']) @ ?t"
      using join_split [of "CHR ''.''" s] sp by simp
    have free: "\<And>p. p \<in> set (q # ps) \<Longrightarrow> CHR ''.'' \<notin> set p"
      using split_free [of _ "CHR ''.''" s] sp by simp
    have "split CHR ''.'' ?t = q # ps"
      using split_join [of "q # ps" "CHR ''.''"] free by blast
    with r sp have t: "?t \<in> ?T" and l: "l \<in> A"
      using tail [of ?t] by simp_all
    have "l @ [CHR ''.''] \<in> ?G"
      using concI [OF l, of "[CHR ''.'']" "{[c] | c. c = CHR ''.''}"] by simp
    then have "(l @ [CHR ''.'']) @ ?t \<in> conc ?G ?T"
      using t by (rule concI)
    with s show ?thesis by simp
  qed
  have assoc: "conc (conc ?G (star ?G)) B = conc ?G ?T"
    by (rule conc_assoc)
  show ?thesis
    unfolding assoc using fwd bwd by blast
qed

section \<open>What the two patterns accept\<close>

lemma test_singleLabelPattern:
  "test False singleLabelPattern s =
     (s \<noteq> [] \<and> list_all (\<lambda>c. isLowerLetter c \<or> isDigit c \<or> c = CHR ''-'') s)"
  unfolding test_lang singleLabelPattern_def lang_Plus_Atom
  by (simp add: class_alnumHyphen list_all_iff)

lemma test_domainPattern: "test True domainPattern s = dotted_hostname_long_tld s"
proof -
  let ?A = "lang True (Seq alnum (Opt (Seq (Upto 61 alnumHyphen) alnum)))"
  let ?B = "lang True (Seq alnum (Seq (Upto 61 alnumHyphen) alnum))"
  have A: "\<And>l. l \<in> ?A \<Longrightarrow> CHR ''.'' \<notin> set l"
    using inner_label_lang dns_label_dot_free by blast
  have B: "\<And>f. f \<in> ?B \<Longrightarrow> CHR ''.'' \<notin> set f"
    using final_label_lang dns_label_dot_free by blast
  have dot: "lang True (Atom [Single CHR ''.'']) = {[c] | c. c = CHR ''.''}"
    by (simp add: class_dot)
  have "lang True domainPattern =
        conc (conc (conc ?A {[c] | c. c = CHR ''.''}) (star (conc ?A {[c] | c. c = CHR ''.''}))) ?B"
    unfolding domainPattern_def Plus_def lang.simps(4) [of True "Seq _ (Star _)"]
      lang.simps(4) [of True "Seq _ (Atom _)" "Star _"] lang.simps(6)
      lang.simps(4) [of True _ "Atom [Single CHR ''.'']"] dot
    by (rule refl)
  then have "test True domainPattern s =
      (2 \<le> length (split CHR ''.'' s) \<and>
       list_all (\<lambda>l. l \<in> ?A) (butlast (split CHR ''.'' s)) \<and> last (split CHR ''.'' s) \<in> ?B)"
    using dotted_lang [of ?A ?B s] A B by (simp add: test_lang)
  also have "\<dots> = dotted_hostname_long_tld s"
  proof -
    obtain ls where ls: "split CHR ''.'' s = ls" by simp
    have ne: "ls \<noteq> []" using ls split_not_Nil by auto
    have "list_all dns_label (butlast ls @ [last ls]) =
          (list_all dns_label (butlast ls) \<and> dns_label (last ls))"
      by simp
    with ne have "list_all dns_label ls = (list_all dns_label (butlast ls) \<and> dns_label (last ls))"
      by simp
    then show ?thesis
      unfolding dotted_hostname_long_tld_def dotted_hostname_def ls inner_label_lang
        final_label_lang
      by auto
  qed
  finally show ?thesis .
qed

section \<open>The normalizer\<close>

lemma toLowerCase_char_no_upper: "\<not> isUpperLetter (toLowerCase_char x)"
  unfolding isUpperLetter_def code_toLowerCase_char by (simp split: if_splits)

lemma toLowerCase_no_upper: "c \<in> set (toLowerCase s) \<Longrightarrow> \<not> isUpperLetter c"
  using toLowerCase_char_no_upper by (auto simp: toLowerCase_def)

lemma set_strip_scheme: "set (strip_scheme s) \<subseteq> set s"
  by (auto simp: strip_scheme_def dest: in_set_dropD)

lemma set_strip_www: "set (strip_www s) \<subseteq> set s"
  by (auto simp: strip_www_def dest: in_set_dropD)

lemma set_strip_trailing_slash: "set (strip_trailing_slash s) \<subseteq> set s"
  by (auto simp: strip_trailing_slash_def dest: in_set_butlastD)

lemma set_trim: "set (trim s) \<subseteq> set s"
proof -
  have "set (trim s) \<subseteq> set (dropWhile isWhiteSpace s)"
    using set_dropWhileD [of _ isWhiteSpace "rev (dropWhile isWhiteSpace s)"]
    by (auto simp: trim_def)
  then show ?thesis
    using set_dropWhileD [of _ isWhiteSpace s] by blast
qed

lemma set_pipeline:
  "set (trim (strip_trailing_slash (strip_www (strip_scheme s)))) \<subseteq> set s"
  using set_trim set_strip_trailing_slash set_strip_www set_strip_scheme
  by (meson subset_trans)

lemma pipeline_no_upper:
  "c \<in> set (trim (strip_trailing_slash (strip_www (strip_scheme (toLowerCase s))))) \<Longrightarrow>
   \<not> isUpperLetter c"
  using set_pipeline [of "toLowerCase s"] toLowerCase_no_upper [of c s] by blast

lemma single_label_lower:
  assumes "\<And>c. c \<in> set s \<Longrightarrow> \<not> isUpperLetter c"
  shows "single_label s =
     (s \<noteq> [] \<and> list_all (\<lambda>c. isLowerLetter c \<or> isDigit c \<or> c = CHR ''-'') s)"
  using assms by (auto simp: single_label_def isLabelChar_def isAlnum_def list_all_iff)

lemma single_label_localhost: "single_label ''localhost''"
  by (simp add: single_label_def isLabelChar_def isAlnum_def isLowerLetter_def code_def)

lemma normalizeDomain_grammar:
  "normalizeDomain x =
     (let n = trim (strip_trailing_slash (strip_www (strip_scheme (toLowerCase x))))
      in if single_label n \<or> dotted_hostname_long_tld n then Inr n
         else Inl (Error (invalid_domain_message x)))"
proof -
  let ?n = "trim (strip_trailing_slash (strip_www (strip_scheme (toLowerCase x))))"
  have "test False singleLabelPattern ?n = single_label ?n"
    using single_label_lower [of ?n] pipeline_no_upper [of _ x]
    by (simp add: test_singleLabelPattern)
  moreover have "?n = ''localhost'' \<Longrightarrow> single_label ?n"
    using single_label_localhost by simp
  ultimately show ?thesis
    unfolding normalizeDomain_def Let_def test_domainPattern by auto
qed

lemma normalizeDomain_Inr_iff:
  "(normalizeDomain x = Inr r) =
     (r = trim (strip_trailing_slash (strip_www (strip_scheme (toLowerCase x)))) \<and>
      (single_label r \<or> dotted_hostname_long_tld r))"
  unfolding normalizeDomain_grammar Let_def by auto

section \<open>Normalizing a normalized domain\<close>

lemma set_join: "c \<in> set (join sep ps) \<Longrightarrow> c = sep \<or> (\<exists>p\<in>set ps. c \<in> set p)"
  by (induction sep ps rule: join.induct) auto

lemma set_by_split: "c \<in> set s \<Longrightarrow> c = sep \<or> (\<exists>p\<in>set (split sep s). c \<in> set p)"
  using set_join [of c sep "split sep s"] by (simp add: join_split)

lemma isHostChar_label:
  "isLabelChar c \<Longrightarrow> \<not> isUpperLetter c \<Longrightarrow> isHostChar c"
  by (auto simp: isHostChar_def isLabelChar_def isAlnum_def)

lemma single_label_host_chars:
  assumes "single_label r" and "\<And>c. c \<in> set r \<Longrightarrow> \<not> isUpperLetter c"
  shows "list_all isHostChar r"
  using assms isHostChar_label by (auto simp: single_label_def list_all_iff)

lemma dotted_host_chars:
  assumes d: "dotted_hostname r" and up: "\<And>c. c \<in> set r \<Longrightarrow> \<not> isUpperLetter c"
  shows "list_all isHostChar r"
proof -
  have "isHostChar c" if c: "c \<in> set r" for c
  proof (cases "c = CHR ''.''")
    case True
    then show ?thesis by (simp add: isHostChar_def)
  next
    case False
    with set_by_split [OF c, of "CHR ''.''"] obtain p
      where p: "p \<in> set (split CHR ''.'' r)" "c \<in> set p" by auto
    with d have "dns_label p" by (simp add: dotted_hostname_def list_all_iff)
    with p(2) have "isLabelChar c" by (simp add: dns_label_def list_all_iff)
    then show ?thesis using up [OF c] by (rule isHostChar_label)
  qed
  then show ?thesis by (simp add: list_all_iff)
qed

lemma normalizeDomain_host_chars:
  assumes "normalizeDomain x = Inr r"
  shows "list_all isHostChar r"
proof -
  from assms [unfolded normalizeDomain_Inr_iff]
  have r: "r = trim (strip_trailing_slash (strip_www (strip_scheme (toLowerCase x))))"
    and v: "single_label r \<or> dotted_hostname_long_tld r"
    by blast+
  have up: "\<And>c. c \<in> set r \<Longrightarrow> \<not> isUpperLetter c"
    using pipeline_no_upper [of _ x] r by simp
  from v show ?thesis
    using single_label_host_chars [of r] dotted_host_chars [of r] up
    by (auto simp: dotted_hostname_long_tld_def)
qed

lemma isHostChar_code:
  "isHostChar c = ((97 \<le> code c \<and> code c \<le> 122) \<or> (45 \<le> code c \<and> code c \<le> 46) \<or>
     (48 \<le> code c \<and> code c \<le> 57))"
  unfolding isHostChar_def isLowerLetter_def isDigit_def hyphen_iff dot_iff by auto

lemma toLowerCase_host: "list_all isHostChar r \<Longrightarrow> toLowerCase r = r"
proof -
  have "toLowerCase_char c = c" if "isHostChar c" for c
    using that unfolding isHostChar_code toLowerCase_char_def by auto
  then show "list_all isHostChar r \<Longrightarrow> toLowerCase r = r"
    by (simp add: toLowerCase_def list_all_iff map_idI)
qed

lemma host_no_colon: "list_all isHostChar r \<Longrightarrow> CHR '':'' \<notin> set r"
  by (auto simp: list_all_iff isHostChar_code code_literals)

lemma host_no_slash: "list_all isHostChar r \<Longrightarrow> CHR ''/'' \<notin> set r"
  by (auto simp: list_all_iff isHostChar_code code_literals)

lemma host_no_space: "list_all isHostChar r \<Longrightarrow> c \<in> set r \<Longrightarrow> \<not> isWhiteSpace c"
  by (auto simp: list_all_iff isHostChar_code isWhiteSpace_def)

lemma strip_scheme_host: "list_all isHostChar r \<Longrightarrow> strip_scheme r = r"
proof -
  assume h: "list_all isHostChar r"
  have "take 7 r \<noteq> ''http://''"
  proof
    assume "take 7 r = ''http://''"
    then have "CHR '':'' \<in> set (take 7 r)" by simp
    then show False using host_no_colon [OF h] by (auto dest: in_set_takeD)
  qed
  moreover have "take 8 r \<noteq> ''https://''"
  proof
    assume "take 8 r = ''https://''"
    then have "CHR '':'' \<in> set (take 8 r)" by simp
    then show False using host_no_colon [OF h] by (auto dest: in_set_takeD)
  qed
  ultimately show ?thesis by (simp add: strip_scheme_def)
qed

lemma strip_trailing_slash_host: "list_all isHostChar r \<Longrightarrow> strip_trailing_slash r = r"
proof -
  assume h: "list_all isHostChar r"
  have "last r \<noteq> CHR ''/''" if "r \<noteq> []"
    using host_no_slash [OF h] last_in_set [OF that] by auto
  then show ?thesis by (auto simp: strip_trailing_slash_def)
qed

lemma dropWhile_none: "(\<And>c. c \<in> set r \<Longrightarrow> \<not> P c) \<Longrightarrow> dropWhile P r = r"
  by (cases r) auto

lemma trim_host: "list_all isHostChar r \<Longrightarrow> trim r = r"
  using dropWhile_none [of r isWhiteSpace] dropWhile_none [of "rev r" isWhiteSpace]
    host_no_space [of r]
  by (simp add: trim_def)

lemma strip_www_host: "list_all isHostChar r \<Longrightarrow> list_all isHostChar (strip_www r)"
  using set_strip_www [of r] by (auto simp: list_all_iff)

lemma pipeline_host:
  assumes "list_all isHostChar r"
  shows "trim (strip_trailing_slash (strip_www (strip_scheme (toLowerCase r)))) = strip_www r"
  using assms strip_www_host [OF assms]
  by (simp add: toLowerCase_host strip_scheme_host strip_trailing_slash_host trim_host)

lemma valid_after_www:
  assumes v: "single_label r \<or> dotted_hostname_long_tld r"
  shows "single_label (strip_www r) \<or> dotted_hostname_long_tld (strip_www r)"
proof (cases "take 4 r = ''www.''")
  case False
  with v show ?thesis by (simp add: strip_www_def)
next
  case True
  let ?t = "drop 4 r"
  have r: "r = ''www'' @ CHR ''.'' # ?t"
    using True append_take_drop_id [of 4 r] by simp
  then have "CHR ''.'' \<in> set r" by (metis in_set_conv_decomp)
  then have "\<not> single_label r"
    using isLabelChar_not_dot by (auto simp: single_label_def list_all_iff)
  with v have d: "dotted_hostname_long_tld r" by simp
  have "CHR ''.'' \<notin> set ''www''" by simp
  then have "split CHR ''.'' (''www'' @ CHR ''.'' # ?t) = ''www'' # split CHR ''.'' ?t"
    by (rule split_append_sep)
  with r have sp: "split CHR ''.'' r = ''www'' # split CHR ''.'' ?t" by simp
  from d have labels: "list_all dns_label (split CHR ''.'' ?t)"
    and long: "2 \<le> length (last (split CHR ''.'' ?t))"
    unfolding dotted_hostname_long_tld_def dotted_hostname_def sp
    by (simp_all add: split_not_Nil)
  show ?thesis
  proof (cases "2 \<le> length (split CHR ''.'' ?t)")
    case True
    with labels long have "dotted_hostname_long_tld ?t"
      by (simp add: dotted_hostname_long_tld_def dotted_hostname_def)
    then show ?thesis using \<open>take 4 r = ''www.''\<close> by (simp add: strip_www_def)
  next
    case False
    then obtain f where f: "split CHR ''.'' ?t = [f]"
      using split_not_Nil [of "CHR ''.''" ?t]
      by (cases "split CHR ''.'' ?t"; cases "tl (split CHR ''.'' ?t)") auto
    then have "?t = f" using join_split [of "CHR ''.''" ?t] by simp
    with f labels have "dns_label ?t" by simp
    then have "single_label ?t" by (auto simp: dns_label_def single_label_def)
    then show ?thesis using \<open>take 4 r = ''www.''\<close> by (simp add: strip_www_def)
  qed
qed

lemma normalizeDomain_again:
  assumes "normalizeDomain x = Inr r"
  shows "normalizeDomain r = Inr (strip_www r)"
proof -
  have h: "list_all isHostChar r" using assms by (rule normalizeDomain_host_chars)
  from assms [unfolded normalizeDomain_Inr_iff]
  have "single_label r \<or> dotted_hostname_long_tld r"
    by blast
  then have "single_label (strip_www r) \<or> dotted_hostname_long_tld (strip_www r)"
    by (rule valid_after_www)
  then show ?thesis
    by (simp add: normalizeDomain_Inr_iff pipeline_host [OF h])
qed

section \<open>The normalizer on the examples\<close>

lemma normalizeDomain_example:
  "normalizeDomain ''HTTPS://WWW.Example.com/'' = Inr ''example.com''"
proof -
  have "trim (strip_trailing_slash (strip_www (strip_scheme
          (toLowerCase ''HTTPS://WWW.Example.com/'')))) = ''example.com''"
    by code_simp
  moreover have "dotted_hostname_long_tld ''example.com''"
    by code_simp
  ultimately show ?thesis
    by (simp add: normalizeDomain_grammar)
qed

lemma normalizeDomain_example_com: "normalizeDomain ''example.com'' = Inr ''example.com''"
  using normalizeDomain_again [OF normalizeDomain_example] by (simp add: strip_www_def)

lemma normalizeDomain_www_www:
  "normalizeDomain ''www.www.example.com'' = Inr ''www.example.com''"
proof -
  have "trim (strip_trailing_slash (strip_www (strip_scheme
          (toLowerCase ''www.www.example.com'')))) = ''www.example.com''"
    by code_simp
  moreover have "dotted_hostname_long_tld ''www.example.com''"
    by code_simp
  ultimately show ?thesis
    by (simp add: normalizeDomain_grammar)
qed

lemma normalizeDomain_www: "normalizeDomain ''www.example.com'' = Inr ''example.com''"
  using normalizeDomain_again [OF normalizeDomain_www_www] by (simp add: strip_www_def)

lemma normalizeDomain_a_b:
  "normalizeDomain ''a.b'' = Inl (Error (invalid_domain_message ''a.b''))"
proof -
  have "trim (strip_trailing_slash (strip_www (strip_scheme (toLowerCase ''a.b'')))) = ''a.b''"
    by code_simp
  moreover have "\<not> dotted_hostname_long_tld ''a.b''" "\<not> single_label ''a.b''"
    by code_simp+
  ultimately show ?thesis
    by (simp add: normalizeDomain_grammar)
qed

lemma dotted_hostname_a_b: "dotted_hostname ''a.b''"
  by code_simp

section \<open>The whitelist store\<close>

lemma getWhitelist_no_error:
  "lastErrors st = [] \<Longrightarrow> getWhitelist st = (Inr (whitelist_of st), st)"
  by (simp add: getWhitelist_def next_lastError_def whitelist_of_def)

lemma saveWhitelist_no_error:
  "lastErrors st = [] \<Longrightarrow> saveWhitelist ds st = (Inr (), st\<lparr>domainWhitelist := Some ds\<rparr>)"
  by (simp add: saveWhitelist_def next_lastError_def)

lemma whitelist_of_next: "whitelist_of (snd (next_lastError st)) = whitelist_of st"
  by (simp add: next_lastError_def whitelist_of_def split: list.splits)

lemma getWhitelist_cases:
  "(\<exists>m. fst (getWhitelist st) = Inl (Error m)) \<or> fst (getWhitelist st) = Inr (whitelist_of st)"
  by (auto simp: getWhitelist_def next_lastError_def whitelist_of_def
      split: list.splits option.splits)

lemma whitelist_of_getWhitelist: "whitelist_of (snd (getWhitelist st)) = whitelist_of st"
  by (auto simp: getWhitelist_def next_lastError_def whitelist_of_def
      split: list.splits option.splits)

lemma whitelist_of_saveWhitelist:
  "whitelist_of (snd (saveWhitelist ds st)) = ds \<or>
   whitelist_of (snd (saveWhitelist ds st)) = whitelist_of st"
  by (auto simp: saveWhitelist_def next_lastError_def whitelist_of_def
      split: list.splits option.splits)

lemma whitelist_of_add:
  "whitelist_of (snd (addDomainToWhitelist d st)) = whitelist_of st \<or>
   (\<exists>n. n \<notin> set (whitelist_of st) \<and>
      whitelist_of (snd (addDomainToWhitelist d st)) = whitelist_of st @ [n])"
proof -
  obtain r st1 where g: "getWhitelist st = (r, st1)" by (cases "getWhitelist st")
  have w1: "whitelist_of st1 = whitelist_of st"
    using whitelist_of_getWhitelist [of st] g by simp
  show ?thesis
  proof (cases r)
    case (Inl e)
    with g w1 show ?thesis by (simp add: addDomainToWhitelist_def)
  next
    case (Inr wl)
    with g have wl: "wl = whitelist_of st"
      using getWhitelist_cases [of st] by auto
    show ?thesis
    proof (cases "normalizeDomain d")
      case (Inl e)
      with g Inr w1 show ?thesis by (simp add: addDomainToWhitelist_def)
    next
      case n: (Inr n)
      show ?thesis
      proof (cases "n \<in> set wl")
        case True
        with g Inr n w1 show ?thesis
          by (simp add: addDomainToWhitelist_def)
      next
        case False
        obtain r2 st2 where s: "saveWhitelist (wl @ [n]) st1 = (r2, st2)"
          by (cases "saveWhitelist (wl @ [n]) st1")
        have "snd (addDomainToWhitelist d st) = st2"
          using g Inr n False s by (simp add: addDomainToWhitelist_def split: sum.splits)
        moreover have "whitelist_of st2 = wl @ [n] \<or> whitelist_of st2 = whitelist_of st1"
          using whitelist_of_saveWhitelist [of "wl @ [n]" st1] s by simp
        ultimately show ?thesis using False wl w1 by auto
      qed
    qed
  qed
qed

lemma whitelist_of_remove:
  "whitelist_of (snd (removeDomainFromWhitelist d st)) = whitelist_of st \<or>
   (\<exists>n. whitelist_of (snd (removeDomainFromWhitelist d st)) =
      filter (\<lambda>x. x \<noteq> n) (whitelist_of st))"
proof -
  obtain r st1 where g: "getWhitelist st = (r, st1)" by (cases "getWhitelist st")
  have w1: "whitelist_of st1 = whitelist_of st"
    using whitelist_of_getWhitelist [of st] g by simp
  show ?thesis
  proof (cases r)
    case (Inl e)
    with g w1 show ?thesis by (simp add: removeDomainFromWhitelist_def)
  next
    case (Inr wl)
    with g have wl: "wl = whitelist_of st"
      using getWhitelist_cases [of st] by auto
    show ?thesis
    proof (cases "normalizeDomain d")
      case (Inl e)
      with g Inr w1 show ?thesis by (simp add: removeDomainFromWhitelist_def)
    next
      case n: (Inr n)
      let ?u = "filter (\<lambda>x. x \<noteq> n) wl"
      obtain r2 st2 where s: "saveWhitelist ?u st1 = (r2, st2)"
        by (cases "saveWhitelist ?u st1")
      have "snd (removeDomainFromWhitelist d st) = st2"
        using g Inr n s by (simp add: removeDomainFromWhitelist_def split: sum.splits)
      moreover have "whitelist_of st2 = ?u \<or> whitelist_of st2 = whitelist_of st1"
        using whitelist_of_saveWhitelist [of ?u st1] s by simp
      ultimately show ?thesis using wl w1 by auto
    qed
  qed
qed

lemma reachable_distinct: "reachable st \<Longrightarrow> distinct (whitelist_of st)"
proof (induction rule: reachable.induct)
  case (initial errs)
  show ?case by (simp add: whitelist_of_def)
next
  case (added st domain)
  then show ?case using whitelist_of_add [of domain st] by auto
next
  case (removed st domain)
  then show ?case using whitelist_of_remove [of domain st] by auto
qed

lemma addDomainToWhitelist_no_error:
  assumes "lastErrors st = []"
  shows "addDomainToWhitelist d st =
     (case normalizeDomain d of
        Inl e \<Rightarrow> (Inl e, st)
      | Inr n \<Rightarrow>
          if n \<in> set (whitelist_of st) then (Inr (whitelist_of st), st)
          else (Inr (whitelist_of st @ [n]),
                st\<lparr>domainWhitelist := Some (whitelist_of st @ [n])\<rparr>))"
  using assms
  by (simp add: addDomainToWhitelist_def getWhitelist_no_error saveWhitelist_no_error Let_def
      split: sum.splits)

lemma count_list_distinct: "distinct xs \<Longrightarrow> x \<in> set xs \<Longrightarrow> count_list xs x = 1"
  by (induction xs) auto

lemma isCurrentDomainWhitelisted_true_iff:
  "(fst (isCurrentDomainWhitelisted hostname st) = Inr True) =
     (\<exists>wl. fst (getWhitelist st) = Inr wl \<and>
        (wl = [] \<or>
         (\<exists>cur. normalizeDomain hostname = Inr cur \<and>
            (\<exists>d\<in>set wl. cur = d \<or> isSubdomain cur d))))"
proof -
  obtain r st1 where g: "getWhitelist st = (r, st1)" by (cases "getWhitelist st")
  show ?thesis
  proof (cases r)
    case (Inl e)
    with g show ?thesis by (simp add: isCurrentDomainWhitelisted_def)
  next
    case (Inr wl)
    show ?thesis
    proof (cases "wl = []")
      case True
      with g Inr show ?thesis by (simp add: isCurrentDomainWhitelisted_def)
    next
      case False
      with g Inr show ?thesis
        by (cases "normalizeDomain hostname")
          (auto simp: isCurrentDomainWhitelisted_def list_ex_iff)
    qed
  qed
qed

lemma normalizeDomain_shop:
  "normalizeDomain ''shop.example.com'' = Inr ''shop.example.com''"
proof -
  have "trim (strip_trailing_slash (strip_www (strip_scheme
          (toLowerCase ''shop.example.com'')))) = ''shop.example.com''"
    by code_simp
  moreover have "dotted_hostname_long_tld ''shop.example.com''"
    by code_simp
  ultimately show ?thesis
    by (simp add: normalizeDomain_grammar)
qed

lemma normalizeDomain_evilexample:
  "normalizeDomain ''evilexample.com'' = Inr ''evilexample.com''"
proof -
  have "trim (strip_trailing_slash (strip_www (strip_scheme
          (toLowerCase ''evilexample.com'')))) = ''evilexample.com''"
    by code_simp
  moreover have "dotted_hostname_long_tld ''evilexample.com''"
    by code_simp
  ultimately show ?thesis
    by (simp add: normalizeDomain_grammar)
qed

lemma isSubdomain_shop: "isSubdomain ''shop.example.com'' ''example.com''"
  by code_simp

lemma isSubdomain_evilexample: "\<not> isSubdomain ''evilexample.com'' ''example.com''"
  by code_simp

lemma whitelisted_shop:
  "fst (isCurrentDomainWhitelisted ''shop.example.com''
          \<lparr>domainWhitelist = Some [''example.com''], lastErrors = []\<rparr>) = Inr True"
  using normalizeDomain_shop isSubdomain_shop
  by (simp add: isCurrentDomainWhitelisted_def getWhitelist_no_error whitelist_of_def)

lemma whitelisted_evilexample:
  "fst (isCurrentDomainWhitelisted ''evilexample.com''
          \<lparr>domainWhitelist = Some [''example.com''], lastErrors = []\<rparr>) = Inr False"
  using normalizeDomain_evilexample isSubdomain_evilexample
  by (simp add: isCurrentDomainWhitelisted_def getWhitelist_no_error whitelist_of_def)

section \<open>The proxy\<close>

lemma onMessage_origin_mismatch:
  assumes "sender_tab sndr = Some t" and "tab_url t = Some tu" and "tu \<noteq> []"
    and "parseURL tu = Some senderUrl" and "parseURL (req_url request) = Some requestUrl"
    and "url_origin senderUrl \<noteq> url_origin requestUrl"
  shows "onMessage api parseURL request sndr w = (failure ''Origin mismatch'', w)"
  using assms by (simp add: onMessage_def)

lemma onMessage_valid:
  assumes "sender_tab sndr = Some t" and "tab_url t = Some tu" and "tu \<noteq> []"
    and "parseURL tu = Some senderUrl" and "parseURL (req_url request) = Some requestUrl"
    and "url_origin senderUrl = url_origin requestUrl"
  shows "onMessage api parseURL request sndr w = dispatch api parseURL request w"
  using assms by (simp add: onMessage_def)

lemma dispatch_unknown:
  assumes "req_type request \<noteq> GET_COOKIE" and "req_type request \<noteq> SET_COOKIE"
    and "req_type request \<noteq> GET_ALL_COOKIES"
  shows "dispatch api parseURL request w = (failure ''Unknown message type'', w)"
  using assms by (simp add: dispatch_def)

lemma onMessage_rejected:
  "onMessage api parseURL request sndr w = dispatch api parseURL request w \<or>
   (\<exists>reason. onMessage api parseURL request sndr w = (failure reason, w))"
  unfolding onMessage_def by (auto split: option.splits)

lemma example_parse_values:
  "example_parseURL ''https://shop.example.com/cart'' =
     Some \<lparr>url_origin = ''https://shop.example.com'', url_hostname = ''shop.example.com'',
           url_protocol = ''https:''\<rparr>"
  "example_parseURL ''https://evil.example.net/'' =
     Some \<lparr>url_origin = ''https://evil.example.net'', url_hostname = ''evil.example.net'',
           url_protocol = ''https:''\<rparr>"
  by (simp_all add: example_parseURL_def)

section \<open>The cookie manager\<close>

lemma sendMessageToBackground_failed:
  "delivery_failed d = (\<exists>e. sendMessageToBackground message timeout d = Inl e)"
  by (auto simp: delivery_failed_def sendMessageToBackground_def
      split: delivery.splits option.splits)

lemma sendMessageToBackground_Inr:
  "(sendMessageToBackground message timeout d = Inr r) =
     (d = Responded None (Some r) \<and> resp_success r)"
  by (auto simp: sendMessageToBackground_def split: delivery.splits option.splits)

lemma getCurrentDevice_total: "\<exists>v. fst (getCurrentDevice chan href w) = Inr v"
  by (auto simp: getCurrentDevice_def Let_def split: prod.splits sum.splits option.splits)

lemma getCookie_total: "\<exists>v. fst (getCookie chan href n w) = Inr v"
  by (auto simp: getCookie_def Let_def split: prod.splits sum.splits option.splits)

lemma getCurrentDevice_failed:
  assumes "delivery_failed (fst (chan \<lparr>req_type = GET_ALL_COOKIES, req_url = href,
                     req_name = None, req_value = None\<rparr> w))"
  shows "fst (getCurrentDevice chan href w) = Inr None"
proof -
  let ?m = "\<lparr>req_type = GET_ALL_COOKIES, req_url = href, req_name = None, req_value = None\<rparr>"
  obtain d w' where c: "chan ?m w = (d, w')" by (cases "chan ?m w")
  with assms obtain e where "sendMessageToBackground ?m MESSAGE_TIMEOUT_MS d = Inl e"
    using sendMessageToBackground_failed [of d ?m MESSAGE_TIMEOUT_MS] by auto
  with c show ?thesis by (simp add: getCurrentDevice_def)
qed

lemma getCookie_failed:
  assumes "delivery_failed (fst (chan \<lparr>req_type = GET_COOKIE, req_url = href,
                     req_name = Some n, req_value = None\<rparr> w))"
  shows "fst (getCookie chan href n w) = Inr None"
proof -
  let ?m = "\<lparr>req_type = GET_COOKIE, req_url = href, req_name = Some n, req_value = None\<rparr>"
  obtain d w' where c: "chan ?m w = (d, w')" by (cases "chan ?m w")
  with assms obtain e where "sendMessageToBackground ?m MESSAGE_TIMEOUT_MS d = Inl e"
    using sendMessageToBackground_failed [of d ?m MESSAGE_TIMEOUT_MS] by auto
  with c show ?thesis by (simp add: getCookie_def)
qed

lemma getCurrentDevice_cookies:
  assumes "fst (chan \<lparr>req_type = GET_ALL_COOKIES, req_url = href, req_name = None,
                     req_value = None\<rparr> w) = Responded None (Some r)"
    and "resp_success r" and "resp_cookies r = Some cookies"
  shows "fst (getCurrentDevice chan href w) =
     Inr (case (case truthy_value (find (\<lambda>c. cookie_name c = ''deviceoutput'') cookies) of
                  Some v \<Rightarrow> Some v
                | None \<Rightarrow> truthy_value (find (\<lambda>c. cookie_name c = ''devicetype'') cookies)) of
            None \<Rightarrow> None
          | Some v \<Rightarrow> if v \<in> set DEVICE_TYPES then Some v else None)"
  using assms
  by (auto simp: getCurrentDevice_def Let_def sendMessageToBackground_def
      split: prod.splits option.splits)

lemma getCookie_cookie:
  assumes "fst (chan \<lparr>req_type = GET_COOKIE, req_url = href, req_name = Some n,
                     req_value = None\<rparr> w) = Responded None (Some r)"
    and "resp_success r"
  shows "fst (getCookie chan href n w) = Inr (truthy_value (resp_cookie r))"
  using assms
  by (auto simp: getCookie_def Let_def sendMessageToBackground_def split: prod.splits)

section \<open>The cookie manager on the proxy\<close>

lemma proxy_set_cookie:
  assumes "sender_tab sndr = Some t" and "tab_url t = Some href" and "href \<noteq> []"
    and "parseURL href = Some urlObj"
  shows "proxy_channel api parseURL sndr
           \<lparr>req_type = SET_COOKIE, req_url = href, req_name = Some n, req_value = Some v\<rparr> w =
         (case cookies_set api (device_cookie_details href urlObj n v)
                 (snd (cookies_remove api href (Some n) w)) of
            (Inl e, w2) \<Rightarrow> (Responded None (Some (failure (case e of Error m \<Rightarrow> m))), w2)
          | (Inr c, w2) \<Rightarrow>
              (Responded None
                 (Some \<lparr>resp_success = True, resp_error = None, resp_cookie = None,
                        resp_result = c, resp_cookies = None\<rparr>),
               notifyTabsOfChange parseURL href w2))"
proof -
  let ?m = "\<lparr>req_type = SET_COOKIE, req_url = href, req_name = Some n, req_value = Some v\<rparr>"
  have "onMessage api parseURL ?m sndr w = dispatch api parseURL ?m w"
    using assms by (simp add: onMessage_def)
  then show ?thesis
    using assms(4)
    by (auto simp: proxy_channel_def dispatch_def SET_COOKIE_def GET_COOKIE_def setCookie_def
        device_cookie_details_def split: prod.splits sum.splits error.splits)
qed

lemma send_failure:
  "sendMessageToBackground
     \<lparr>req_type = SET_COOKIE, req_url = href, req_name = n, req_value = v\<rparr> timeout
     (Responded None (Some (failure (case e of Error m \<Rightarrow> m)))) = Inl (reported e)"
  by (cases e) (simp add: sendMessageToBackground_def failure_def SET_COOKIE_def)

lemma send_success:
  "sendMessageToBackground message timeout
     (Responded None
        (Some \<lparr>resp_success = True, resp_error = None, resp_cookie = None, resp_result = c,
               resp_cookies = None\<rparr>)) =
   Inr \<lparr>resp_success = True, resp_error = None, resp_cookie = None, resp_result = c,
        resp_cookies = None\<rparr>"
  by (simp add: sendMessageToBackground_def)

lemma setDeviceType_on_proxy:
  assumes "deviceType \<in> set DEVICE_TYPES"
    and "sender_tab sndr = Some t" and "tab_url t = Some href" and "href \<noteq> []"
    and "parseURL href = Some urlObj"
  shows "setDeviceType (proxy_channel api parseURL sndr) href deviceType w =
     (case cookies_set api (device_cookie_details href urlObj ''deviceoutput'' deviceType)
             (snd (cookies_remove api href (Some ''deviceoutput'') w)) of
        (Inl e, w2) \<Rightarrow> (Inl (reported e), w2)
      | (Inr c1, w2) \<Rightarrow>
          (case cookies_set api (device_cookie_details href urlObj ''devicetype'' deviceType)
                  (snd (cookies_remove api href (Some ''devicetype'')
                          (notifyTabsOfChange parseURL href w2))) of
             (Inl e, w5) \<Rightarrow> (Inl (reported e), w5)
           | (Inr c2, w5) \<Rightarrow> (Inr True, notifyTabsOfChange parseURL href w5)))"
proof -
  let ?w1 = "snd (cookies_remove api href (Some ''deviceoutput'') w)"
  obtain r1 w2
    where c1: "cookies_set api (device_cookie_details href urlObj ''deviceoutput'' deviceType) ?w1 =
               (r1, w2)"
    by (cases "cookies_set api (device_cookie_details href urlObj ''deviceoutput'' deviceType) ?w1")
  note p1 = proxy_set_cookie [where parseURL = parseURL and href = href, OF assms(2-5),
      of api "''deviceoutput''" deviceType w]
  show ?thesis
  proof (cases r1)
    case (Inl e)
    with assms(1) c1 p1 show ?thesis
      by (simp add: setDeviceType_def Let_def send_failure)
  next
    case r1: (Inr c)
    let ?w3 = "notifyTabsOfChange parseURL href w2"
    let ?w4 = "snd (cookies_remove api href (Some ''devicetype'') ?w3)"
    obtain r2 w5
      where c2: "cookies_set api (device_cookie_details href urlObj ''devicetype'' deviceType) ?w4 =
                 (r2, w5)"
      by (cases "cookies_set api (device_cookie_details href urlObj ''devicetype'' deviceType) ?w4")
    note p2 = proxy_set_cookie [where parseURL = parseURL and href = href, OF assms(2-5),
        of api "''devicetype''" deviceType ?w3]
    show ?thesis
    proof (cases r2)
      case (Inl e)
      with assms(1) c1 c2 p1 p2 r1 show ?thesis
        by (simp add: setDeviceType_def Let_def send_failure send_success)
    next
      case (Inr c')
      with assms(1) c1 c2 p1 p2 r1 show ?thesis
        by (simp add: setDeviceType_def Let_def send_failure send_success)
    qed
  qed
qed

lemma setDeviceType_generic:
  assumes "deviceType \<in> set DEVICE_TYPES"
  shows "setDeviceType chan href deviceType w =
     (case chan \<lparr>req_type = SET_COOKIE, req_url = href, req_name = Some ''deviceoutput'',
                 req_value = Some deviceType\<rparr> w of
        (d1, w1) \<Rightarrow>
          (case sendMessageToBackground
                  \<lparr>req_type = SET_COOKIE, req_url = href, req_name = Some ''deviceoutput'',
                   req_value = Some deviceType\<rparr> MESSAGE_TIMEOUT_MS d1 of
             Inl e \<Rightarrow> (Inl e, w1)
           | Inr _ \<Rightarrow>
               (case chan \<lparr>req_type = SET_COOKIE, req_url = href, req_name = Some ''devicetype'',
                           req_value = Some deviceType\<rparr> w1 of
                  (d2, w2) \<Rightarrow>
                    (case sendMessageToBackground
                            \<lparr>req_type = SET_COOKIE, req_url = href,
                             req_name = Some ''devicetype'', req_value = Some deviceType\<rparr>
                            MESSAGE_TIMEOUT_MS d2 of
                       Inl e \<Rightarrow> (Inl e, w2)
                     | Inr _ \<Rightarrow> (Inr True, w2)))))"
  using assms by (simp add: setDeviceType_def Let_def)

lemma example_jar_run:
  "setDeviceType (proxy_channel jar example_parseURL example_sender)
     ''https://shop.example.com/cart'' ''mobile'' example_world =
   (Inr True,
    \<lparr>cookie_store = [example_cookie ''deviceoutput'' ''mobile'',
                      example_cookie ''devicetype'' ''mobile''],
     open_tabs = open_tabs example_world,
     calls =
       [CookiesRemove ''https://shop.example.com/cart'' (Some ''deviceoutput''),
        CookiesSet (device_cookie_details ''https://shop.example.com/cart''
                      \<lparr>url_origin = ''https://shop.example.com'',
                       url_hostname = ''shop.example.com'', url_protocol = ''https:''\<rparr>
                      ''deviceoutput'' ''mobile''),
        TabsQuery, TabsSendMessage 7 ''https://shop.example.com/cart'',
        CookiesRemove ''https://shop.example.com/cart'' (Some ''devicetype''),
        CookiesSet (device_cookie_details ''https://shop.example.com/cart''
                      \<lparr>url_origin = ''https://shop.example.com'',
                       url_hostname = ''shop.example.com'', url_protocol = ''https:''\<rparr>
                      ''devicetype'' ''mobile''),
        TabsQuery, TabsSendMessage 7 ''https://shop.example.com/cart'']\<rparr>)"
proof -
  have t: "''mobile'' \<in> set DEVICE_TYPES" by (simp add: DEVICE_TYPES_def)
  have s: "sender_tab example_sender =
             Some \<lparr>tab_id = 7, tab_url = Some ''https://shop.example.com/cart''\<rparr>"
    by (simp add: example_sender_def)
  have u: "tab_url \<lparr>tab_id = 7, tab_url = Some ''https://shop.example.com/cart''\<rparr> =
             Some ''https://shop.example.com/cart''" by simp
  have n: "''https://shop.example.com/cart'' \<noteq> []" by simp
  show ?thesis
    unfolding setDeviceType_on_proxy [where parseURL = example_parseURL
        and href = "''https://shop.example.com/cart''", OF t s u n example_parse_values(1)]
    by (simp add: cookies_set_def cookies_remove_def jar_def example_world_def
        notifyTabsOfChange_def example_parse_values device_cookie_details_def
        example_cookie_def)
qed

lemma example_failing_jar_run:
  "setDeviceType (proxy_channel (failing_jar ''devicetype'') example_parseURL example_sender)
     ''https://shop.example.com/cart'' ''mobile'' example_world =
   (Inl (Error ''Quota exceeded''),
    \<lparr>cookie_store = [example_cookie ''deviceoutput'' ''mobile''],
     open_tabs = open_tabs example_world,
     calls =
       [CookiesRemove ''https://shop.example.com/cart'' (Some ''deviceoutput''),
        CookiesSet (device_cookie_details ''https://shop.example.com/cart''
                      \<lparr>url_origin = ''https://shop.example.com'',
                       url_hostname = ''shop.example.com'', url_protocol = ''https:''\<rparr>
                      ''deviceoutput'' ''mobile''),
        TabsQuery, TabsSendMessage 7 ''https://shop.example.com/cart'',
        CookiesRemove ''https://shop.example.com/cart'' (Some ''devicetype''),
        CookiesSet (device_cookie_details ''https://shop.example.com/cart''
                      \<lparr>url_origin = ''https://shop.example.com'',
                       url_hostname = ''shop.example.com'', url_protocol = ''https:''\<rparr>
                      ''devicetype'' ''mobile'')]\<rparr>)"
proof -
  have t: "''mobile'' \<in> set DEVICE_TYPES" by (simp add: DEVICE_TYPES_def)
  have s: "sender_tab example_sender =
             Some \<lparr>tab_id = 7, tab_url = Some ''https://shop.example.com/cart''\<rparr>"
    by (simp add: example_sender_def)
  have u: "tab_url \<lparr>tab_id = 7, tab_url = Some ''https://shop.example.com/cart''\<rparr> =
             Some ''https://shop.example.com/cart''" by simp
  have n: "''https://shop.example.com/cart'' \<noteq> []" by simp
  show ?thesis
    unfolding setDeviceType_on_proxy [where parseURL = example_parseURL
        and href = "''https://shop.example.com/cart''", OF t s u n example_parse_values(1)]
    by (simp add: cookies_set_def cookies_remove_def jar_def failing_jar_def example_world_def
        notifyTabsOfChange_def example_parse_values device_cookie_details_def
        example_cookie_def)
qed

lemma getCurrentDevice_known:
  "fst (getCurrentDevice chan href w) = Inr (Some v) \<Longrightarrow> v \<in> set DEVICE_TYPES"
  by (auto simp: getCurrentDevice_def Let_def
      split: prod.splits sum.splits option.splits if_splits)

section \<open>Claims\<close>

text \<open>
  C1: a request whose sender's tab URL has an origin different from the origin of the
  request's target URL is answered with \<open>{success: false, error: 'Origin mismatch'}\<close>, and no
  operation of the cookie store (no get, no remove, no set, no getAll) is performed,
  whatever the type of the request.
\<close>

theorem origin_mismatch_rejected:
  assumes "sender_tab sndr = Some t" and "tab_url t = Some tu" and "tu \<noteq> []"
    and "parseURL tu = Some senderUrl" and "parseURL (req_url request) = Some requestUrl"
    and "url_origin senderUrl \<noteq> url_origin requestUrl"
  shows "fst (onMessage api parseURL request sndr w) =
           \<lparr>resp_success = False, resp_error = Some ''Origin mismatch'', resp_cookie = None,
            resp_result = None, resp_cookies = None\<rparr> \<and>
         snd (onMessage api parseURL request sndr w) = w \<and>
         calls (snd (onMessage api parseURL request sndr w)) = calls w \<and>
         cookie_store (snd (onMessage api parseURL request sndr w)) = cookie_store w"
  using onMessage_origin_mismatch [OF assms, of api w] by (simp add: failure_def)

theorem origin_mismatch_rejected_witness:
  "fst (onMessage jar example_parseURL
          \<lparr>req_type = ''SET_COOKIE'', req_url = ''https://evil.example.net/'',
           req_name = Some ''deviceoutput'', req_value = Some ''mobile''\<rparr>
          example_sender example_world) =
     \<lparr>resp_success = False, resp_error = Some ''Origin mismatch'', resp_cookie = None,
      resp_result = None, resp_cookies = None\<rparr> \<and>
   calls (snd (onMessage jar example_parseURL
          \<lparr>req_type = ''SET_COOKIE'', req_url = ''https://evil.example.net/'',
           req_name = Some ''deviceoutput'', req_value = Some ''mobile''\<rparr>
          example_sender example_world)) = []"
proof -
  let ?t = "\<lparr>tab_id = 7, tab_url = Some ''https://shop.example.com/cart''\<rparr>"
  let ?r = "\<lparr>req_type = ''SET_COOKIE'', req_url = ''https://evil.example.net/'',
           req_name = Some ''deviceoutput'', req_value = Some ''mobile''\<rparr>"
  have 1: "sender_tab example_sender = Some ?t" by (simp add: example_sender_def)
  have 2: "tab_url ?t = Some ''https://shop.example.com/cart''" by simp
  have 3: "''https://shop.example.com/cart'' \<noteq> []" by simp
  have 5: "example_parseURL (req_url ?r) =
     Some \<lparr>url_origin = ''https://evil.example.net'', url_hostname = ''evil.example.net'',
           url_protocol = ''https:''\<rparr>"
    by (simp add: example_parse_values)
  have 6: "url_origin \<lparr>url_origin = ''https://shop.example.com'', url_hostname = ''shop.example.com'',
           url_protocol = ''https:''\<rparr> \<noteq> url_origin \<lparr>url_origin = ''https://evil.example.net'', url_hostname = ''evil.example.net'',
           url_protocol = ''https:''\<rparr>" by simp
  show ?thesis
    using origin_mismatch_rejected [OF 1 2 3 example_parse_values(1) 5 6, of jar example_world]
    by (simp add: example_world_def)
qed

text \<open>
  C2: \<open>isSubdomain\<close> is to return false for the candidate \<open>evilcom.example.com\<close> and the
  parent \<open>example.com\<close>; the comment in \<open>isCurrentDomainWhitelisted\<close> asks the same
  (\<open>evilcom.example.com\<close> should NOT match \<open>example.com\<close>). The code returns true on
  this input: it compares the last labels of the candidate with the labels of the parent
  (\<open>isSubdomain_iff_labelwise\<close>, for all inputs), and the last two labels of
  \<open>evilcom.example.com\<close> are \<open>example\<close> and \<open>com\<close>.
\<close>

theorem isSubdomain_evilcom_returns_true:
  "isSubdomain ''evilcom.example.com'' ''example.com'' = True"
  by code_simp

text \<open>
  C3: \<open>isCurrentDomainWhitelisted\<close> returns true exactly when the stored whitelist is empty,
  or the normalized current hostname equals some entry of the whitelist, or it is a
  subdomain (by \<open>isSubdomain\<close>) of some entry. With the whitelist \<open>[example.com]\<close> the
  hostname \<open>shop.example.com\<close> is whitelisted and \<open>evilexample.com\<close> is not.
\<close>

theorem isCurrentDomainWhitelisted_decision:
  "(fst (isCurrentDomainWhitelisted hostname st) = Inr True) =
     (\<exists>wl. fst (getWhitelist st) = Inr wl \<and>
        (wl = [] \<or>
         (\<exists>cur. normalizeDomain hostname = Inr cur \<and>
            (\<exists>d\<in>set wl. cur = d \<or> isSubdomain cur d)))) \<and>
   fst (isCurrentDomainWhitelisted ''shop.example.com''
          \<lparr>domainWhitelist = Some [''example.com''], lastErrors = []\<rparr>) = Inr True \<and>
   fst (isCurrentDomainWhitelisted ''evilexample.com''
          \<lparr>domainWhitelist = Some [''example.com''], lastErrors = []\<rparr>) = Inr False"
  using isCurrentDomainWhitelisted_true_iff [of hostname st] whitelisted_shop
    whitelisted_evilexample
  by simp

theorem isCurrentDomainWhitelisted_decision_witness:
  "fst (isCurrentDomainWhitelisted ''example.com''
          \<lparr>domainWhitelist = Some [''a.de'', ''example.com''], lastErrors = []\<rparr>) = Inr True"
proof -
  let ?st = "\<lparr>domainWhitelist = Some [''a.de'', ''example.com''], lastErrors = []\<rparr>"
  have "fst (getWhitelist ?st) = Inr [''a.de'', ''example.com'']"
    by (simp add: getWhitelist_no_error whitelist_of_def)
  then show ?thesis
    using isCurrentDomainWhitelisted_decision [of "''example.com''" ?st]
      normalizeDomain_example_com
    by simp
qed

text \<open>
  C4 (as amended): \<open>normalizeDomain\<close> lower-cases its input, strips a leading \<open>http://\<close> or
  \<open>https://\<close>, strips a leading \<open>www.\<close>, strips a trailing slash and trims white space, in
  this order. It then succeeds, returning that string, exactly when the string is a single
  DNS label (letters, digits and hyphens only) or a dotted hostname of several labels in
  which every label has 1 to 63 characters, is alphanumeric with internal hyphens, has no
  hyphen at either end, and the last label has at least two characters. Every other input
  is rejected with the error whose message carries the original input. In particular
  \<open>HTTPS://WWW.Example.com/\<close> normalizes to \<open>example.com\<close>.
\<close>

theorem normalizeDomain_accepts_grammar:
  "normalizeDomain x =
     (if single_label (trim (strip_trailing_slash (strip_www (strip_scheme (toLowerCase x))))) \<or>
         dotted_hostname_long_tld
           (trim (strip_trailing_slash (strip_www (strip_scheme (toLowerCase x)))))
      then Inr (trim (strip_trailing_slash (strip_www (strip_scheme (toLowerCase x)))))
      else Inl (Error (''Invalid domain format: '' @ [CHR 0x22] @ x @ [CHR 0x22] @
                       ''. Please enter a valid domain (e.g., example.com)''))) \<and>
   normalizeDomain ''HTTPS://WWW.Example.com/'' = Inr ''example.com''"
  using normalizeDomain_example
  by (simp add: normalizeDomain_grammar [of x] Let_def invalid_domain_message_def)

theorem normalizeDomain_accepts_grammar_witness:
  "normalizeDomain ''www.www.example.com'' = Inr ''www.example.com''"
proof -
  have "trim (strip_trailing_slash (strip_www (strip_scheme
          (toLowerCase ''www.www.example.com'')))) = ''www.example.com''"
    by code_simp
  moreover have "dotted_hostname_long_tld ''www.example.com''"
    by code_simp
  ultimately show ?thesis
    using normalizeDomain_accepts_grammar [of "''www.www.example.com''"] by simp
qed

text \<open>
  The grammar of the specification admits a last label of one character; the pattern of
  the source does not: \<open>a.b\<close> is a dotted hostname of two labels, and it is rejected.
\<close>

theorem normalizeDomain_short_tld_counterexample:
  "dotted_hostname ''a.b'' \<and>
   normalizeDomain ''a.b'' = Inl (Error (invalid_domain_message ''a.b''))"
  using dotted_hostname_a_b normalizeDomain_a_b by simp

text \<open>
  C5 (as amended): for every input \<open>x\<close> on which \<open>normalizeDomain\<close> succeeds, applying
  \<open>normalizeDomain\<close> to the result succeeds as well, and it returns the same string whenever
  the result does not begin with \<open>www.\<close>.
\<close>

theorem normalizeDomain_idempotent_unless_www:
  assumes "normalizeDomain x = Inr r"
  shows "(\<exists>r'. normalizeDomain r = Inr r') \<and>
         (take 4 r \<noteq> ''www.'' \<longrightarrow> normalizeDomain r = Inr r)"
  using normalizeDomain_again [OF assms] by (simp add: strip_www_def)

theorem normalizeDomain_idempotent_unless_www_witness:
  "normalizeDomain ''HTTPS://WWW.Example.com/'' = Inr ''example.com'' \<and>
   take 4 ''example.com'' \<noteq> ''www.'' \<and>
   normalizeDomain ''example.com'' = Inr ''example.com''"
  using normalizeDomain_idempotent_unless_www [OF normalizeDomain_example]
    normalizeDomain_example
  by simp

text \<open>
  Only one leading \<open>www.\<close> is stripped: \<open>www.www.example.com\<close> normalizes to
  \<open>www.example.com\<close>, which normalizes to \<open>example.com\<close>.
\<close>

theorem normalizeDomain_idempotent_counterexample:
  "normalizeDomain ''www.www.example.com'' = Inr ''www.example.com'' \<and>
   normalizeDomain ''www.example.com'' = Inr ''example.com'' \<and>
   normalizeDomain ''www.example.com'' \<noteq> normalizeDomain ''www.www.example.com''"
  using normalizeDomain_www_www normalizeDomain_www by simp

text \<open>
  C6: \<open>addDomainToWhitelist\<close> normalizes its argument and passes the error of an invalid
  domain on; it appends the normalized form only when the whitelist does not hold it yet,
  stores the list and returns it. Adding the same domain a second time changes nothing:
  the list holds the normalized form exactly once (one entry when the whitelist was empty).
  No store that the two mutators produce from the empty store holds a duplicate, whatever
  the storage errors on the way; the behaviour of the two calls is stated for a whitelist
  without duplicates and calls that meet no storage error.
\<close>

theorem addDomainToWhitelist_idempotent:
  "(reachable st \<longrightarrow> distinct (whitelist_of st)) \<and>
   (distinct (whitelist_of st) \<and> lastErrors st = [] \<longrightarrow>
    (case normalizeDomain d of
       Inl e \<Rightarrow> addDomainToWhitelist d st = (Inl e, st)
     | Inr n \<Rightarrow>
         (let wl = (if n \<in> set (whitelist_of st) then whitelist_of st
                    else whitelist_of st @ [n]);
              st' = (if n \<in> set (whitelist_of st) then st
                     else st\<lparr>domainWhitelist := Some wl\<rparr>)
          in addDomainToWhitelist d st = (Inr wl, st') \<and>
             addDomainToWhitelist d st' = (Inr wl, st') \<and>
             whitelist_of st' = wl \<and> count_list wl n = 1 \<and> distinct wl \<and>
             (whitelist_of st = [] \<longrightarrow> length wl = 1))))"
proof (intro conjI impI)
  assume "reachable st"
  then show "distinct (whitelist_of st)" by (rule reachable_distinct)
next
  assume "distinct (whitelist_of st) \<and> lastErrors st = []"
  then have dist: "distinct (whitelist_of st)" and ok: "lastErrors st = []"
    by simp_all
  show "case normalizeDomain d of
          Inl e \<Rightarrow> addDomainToWhitelist d st = (Inl e, st)
        | Inr n \<Rightarrow>
            (let wl = (if n \<in> set (whitelist_of st) then whitelist_of st
                       else whitelist_of st @ [n]);
                 st' = (if n \<in> set (whitelist_of st) then st
                        else st\<lparr>domainWhitelist := Some wl\<rparr>)
             in addDomainToWhitelist d st = (Inr wl, st') \<and>
                addDomainToWhitelist d st' = (Inr wl, st') \<and>
                whitelist_of st' = wl \<and> count_list wl n = 1 \<and> distinct wl \<and>
                (whitelist_of st = [] \<longrightarrow> length wl = 1))"
  proof (cases "normalizeDomain d")
    case (Inl e)
    then show ?thesis
      using addDomainToWhitelist_no_error [OF ok, of d] by simp
  next
    case (Inr n)
    show ?thesis
    proof (cases "n \<in> set (whitelist_of st)")
      case True
      have "count_list (whitelist_of st) n = 1"
        using dist True by (rule count_list_distinct)
      with True Inr dist show ?thesis
        using addDomainToWhitelist_no_error [OF ok, of d] by auto
    next
      case False
      let ?wl = "whitelist_of st @ [n]"
      let ?st' = "st\<lparr>domainWhitelist := Some ?wl\<rparr>"
      have e: "lastErrors ?st' = []" using ok by simp
      have w: "whitelist_of ?st' = ?wl" by (simp add: whitelist_of_def)
      have "count_list ?wl n = 1"
        using False by (simp add: count_list_0_iff)
      with False Inr dist w show ?thesis
        using addDomainToWhitelist_no_error [OF ok, of d]
          addDomainToWhitelist_no_error [OF e, of d]
        by (simp add: Let_def)
    qed
  qed
qed

theorem addDomainToWhitelist_idempotent_witness:
  "addDomainToWhitelist ''HTTPS://WWW.Example.com/'' \<lparr>domainWhitelist = None, lastErrors = []\<rparr> =
     (Inr [''example.com''], \<lparr>domainWhitelist = Some [''example.com''], lastErrors = []\<rparr>) \<and>
   addDomainToWhitelist ''HTTPS://WWW.Example.com/''
       \<lparr>domainWhitelist = Some [''example.com''], lastErrors = []\<rparr> =
     (Inr [''example.com''], \<lparr>domainWhitelist = Some [''example.com''], lastErrors = []\<rparr>) \<and>
   length [''example.com''] = 1"
proof -
  let ?st = "\<lparr>domainWhitelist = None, lastErrors = []\<rparr>"
  have r: "reachable ?st" by (rule reachable.initial)
  show ?thesis
    using addDomainToWhitelist_idempotent [of ?st "''HTTPS://WWW.Example.com/''"] r
      normalizeDomain_example
    by (simp add: whitelist_of_def Let_def)
qed

text \<open>
  C7: \<open>getCurrentDevice\<close> decides the active identity from the cookies of the current URL:
  it takes the value of the \<open>deviceoutput\<close> cookie and falls back to the \<open>devicetype\<close>
  cookie, and it returns that value only when it is one of \<open>desktop\<close>, \<open>mobile\<close> and \<open>app\<close>.
  A value outside these three counts as no identity (the result is absent, neither an
  error nor that string), and so does the absence of both cookies.
\<close>

theorem getCurrentDevice_identity:
  "(\<forall>v. fst (getCurrentDevice chan href w) = Inr (Some v) \<longrightarrow>
        v \<in> {''desktop'', ''mobile'', ''app''}) \<and>
   (\<forall>r cookies.
      fst (chan \<lparr>req_type = GET_ALL_COOKIES, req_url = href, req_name = None,
                 req_value = None\<rparr> w) = Responded None (Some r) \<and>
      resp_success r \<and> resp_cookies r = Some cookies \<longrightarrow>
      (\<forall>c. find (\<lambda>c. cookie_name c = ''deviceoutput'') cookies = Some c \<and>
           cookie_value c \<in> {''desktop'', ''mobile'', ''app''} \<longrightarrow>
           fst (getCurrentDevice chan href w) = Inr (Some (cookie_value c))) \<and>
      (\<forall>c. find (\<lambda>c. cookie_name c = ''deviceoutput'') cookies = None \<and>
           find (\<lambda>c. cookie_name c = ''devicetype'') cookies = Some c \<and>
           cookie_value c \<in> {''desktop'', ''mobile'', ''app''} \<longrightarrow>
           fst (getCurrentDevice chan href w) = Inr (Some (cookie_value c))) \<and>
      (\<forall>c. find (\<lambda>c. cookie_name c = ''deviceoutput'') cookies = Some c \<and>
           cookie_value c \<noteq> [] \<and> cookie_value c \<notin> {''desktop'', ''mobile'', ''app''} \<longrightarrow>
           fst (getCurrentDevice chan href w) = Inr None) \<and>
      (\<forall>c. find (\<lambda>c. cookie_name c = ''deviceoutput'') cookies = None \<and>
           find (\<lambda>c. cookie_name c = ''devicetype'') cookies = Some c \<and>
           cookie_value c \<notin> {''desktop'', ''mobile'', ''app''} \<longrightarrow>
           fst (getCurrentDevice chan href w) = Inr None) \<and>
      (find (\<lambda>c. cookie_name c = ''deviceoutput'') cookies = None \<and>
       find (\<lambda>c. cookie_name c = ''devicetype'') cookies = None \<longrightarrow>
       fst (getCurrentDevice chan href w) = Inr None))"
proof (intro conjI allI impI)
  fix v
  assume "fst (getCurrentDevice chan href w) = Inr (Some v)"
  then show "v \<in> {''desktop'', ''mobile'', ''app''}"
    using getCurrentDevice_known [of chan href w v] by (simp add: DEVICE_TYPES_def)
next
  fix r cookies
  assume a: "fst (chan \<lparr>req_type = GET_ALL_COOKIES, req_url = href, req_name = None,
                 req_value = None\<rparr> w) = Responded None (Some r) \<and>
      resp_success r \<and> resp_cookies r = Some cookies"
  note eq = getCurrentDevice_cookies [where chan = chan and href = href and w = w and r = r
      and cookies = cookies]
  {
    fix c
    assume "find (\<lambda>c. cookie_name c = ''deviceoutput'') cookies = Some c \<and>
           cookie_value c \<in> {''desktop'', ''mobile'', ''app''}"
    then show "fst (getCurrentDevice chan href w) = Inr (Some (cookie_value c))"
      using a eq by (auto simp: truthy_value_def DEVICE_TYPES_def)
  next
    fix c
    assume "find (\<lambda>c. cookie_name c = ''deviceoutput'') cookies = None \<and>
           find (\<lambda>c. cookie_name c = ''devicetype'') cookies = Some c \<and>
           cookie_value c \<in> {''desktop'', ''mobile'', ''app''}"
    then show "fst (getCurrentDevice chan href w) = Inr (Some (cookie_value c))"
      using a eq by (auto simp: truthy_value_def DEVICE_TYPES_def)
  next
    fix c
    assume "find (\<lambda>c. cookie_name c = ''deviceoutput'') cookies = Some c \<and>
           cookie_value c \<noteq> [] \<and> cookie_value c \<notin> {''desktop'', ''mobile'', ''app''}"
    then show "fst (getCurrentDevice chan href w) = Inr None"
      using a eq by (auto simp: truthy_value_def DEVICE_TYPES_def)
  next
    fix c
    assume "find (\<lambda>c. cookie_name c = ''deviceoutput'') cookies = None \<and>
           find (\<lambda>c. cookie_name c = ''devicetype'') cookies = Some c \<and>
           cookie_value c \<notin> {''desktop'', ''mobile'', ''app''}"
    then show "fst (getCurrentDevice chan href w) = Inr None"
      using a eq by (auto simp: truthy_value_def DEVICE_TYPES_def)
  next
    assume "find (\<lambda>c. cookie_name c = ''deviceoutput'') cookies = None \<and>
       find (\<lambda>c. cookie_name c = ''devicetype'') cookies = None"
    then show "fst (getCurrentDevice chan href w) = Inr None"
      using a eq by (auto simp: truthy_value_def DEVICE_TYPES_def)
  }
qed

theorem getCurrentDevice_identity_witness:
  "fst (getCurrentDevice
          (constant_channel (Responded None (Some (cookies_response
             [example_cookie ''devicetype'' ''desktop'',
              example_cookie ''deviceoutput'' ''mobile'']))))
          ''https://shop.example.com/cart'' ()) = Inr (Some ''mobile'') \<and>
   fst (getCurrentDevice
          (constant_channel (Responded None (Some (cookies_response
             [example_cookie ''deviceoutput'' ''tablet'',
              example_cookie ''devicetype'' ''mobile'']))))
          ''https://shop.example.com/cart'' ()) = Inr None \<and>
   fst (getCurrentDevice
          (constant_channel (Responded None (Some (cookies_response
             [example_cookie ''session'' ''abc'']))))
          ''https://shop.example.com/cart'' ()) = Inr None"
proof -
  let ?h = "''https://shop.example.com/cart''"
  have "fst (getCurrentDevice
          (constant_channel (Responded None (Some (cookies_response
             [example_cookie ''devicetype'' ''desktop'',
              example_cookie ''deviceoutput'' ''mobile''])))) ?h ()) = Inr (Some ''mobile'')"
    using getCurrentDevice_identity
      [where chan = "constant_channel (Responded None (Some (cookies_response
             [example_cookie ''devicetype'' ''desktop'',
              example_cookie ''deviceoutput'' ''mobile''])))"
        and href = ?h and w = "()"]
    by (simp add: example_cookie_def constant_channel_def cookies_response_def)
  moreover have "fst (getCurrentDevice
          (constant_channel (Responded None (Some (cookies_response
             [example_cookie ''deviceoutput'' ''tablet'',
              example_cookie ''devicetype'' ''mobile''])))) ?h ()) = Inr None"
    using getCurrentDevice_identity
      [where chan = "constant_channel (Responded None (Some (cookies_response
             [example_cookie ''deviceoutput'' ''tablet'',
              example_cookie ''devicetype'' ''mobile''])))"
        and href = ?h and w = "()"]
    by (simp add: example_cookie_def constant_channel_def cookies_response_def)
  moreover have "fst (getCurrentDevice
          (constant_channel (Responded None (Some (cookies_response
             [example_cookie ''session'' ''abc''])))) ?h ()) = Inr None"
    using getCurrentDevice_identity
      [where chan = "constant_channel (Responded None (Some (cookies_response
             [example_cookie ''session'' ''abc''])))"
        and href = ?h and w = "()"]
    by (simp add: example_cookie_def constant_channel_def cookies_response_def)
  ultimately show ?thesis by simp
qed

text \<open>
  C8: for a device type \<open>t\<close> among \<open>desktop\<close>, \<open>mobile\<close> and \<open>app\<close>, \<open>setDeviceType\<close> sends the
  write of the \<open>deviceoutput\<close> cookie and then the write of the \<open>devicetype\<close> cookie, both
  with the value \<open>t\<close> and the URL of the page. On any channel, it returns true only when
  both writes were acknowledged, and the error of the first or of the second write is the
  error of the call. On the proxy, for a page whose URL is the sender's tab URL, the two
  cookies are removed and set in the store with the value \<open>t\<close> for the host of the page; the
  rejection of either \<open>set\<close> (of the second one too, after the first was applied) comes
  back as the error of the call.
\<close>

theorem setDeviceType_both_or_error:
  assumes "deviceType \<in> set DEVICE_TYPES"
  shows
    "setDeviceType chan href deviceType w =
       (case chan \<lparr>req_type = SET_COOKIE, req_url = href, req_name = Some ''deviceoutput'',
                   req_value = Some deviceType\<rparr> w of
          (d1, w1) \<Rightarrow>
            (case sendMessageToBackground
                    \<lparr>req_type = SET_COOKIE, req_url = href, req_name = Some ''deviceoutput'',
                     req_value = Some deviceType\<rparr> MESSAGE_TIMEOUT_MS d1 of
               Inl e \<Rightarrow> (Inl e, w1)
             | Inr _ \<Rightarrow>
                 (case chan \<lparr>req_type = SET_COOKIE, req_url = href,
                             req_name = Some ''devicetype'', req_value = Some deviceType\<rparr> w1 of
                    (d2, w2) \<Rightarrow>
                      (case sendMessageToBackground
                              \<lparr>req_type = SET_COOKIE, req_url = href,
                               req_name = Some ''devicetype'', req_value = Some deviceType\<rparr>
                              MESSAGE_TIMEOUT_MS d2 of
                         Inl e \<Rightarrow> (Inl e, w2)
                       | Inr _ \<Rightarrow> (Inr True, w2))))) \<and>
     (sender_tab sndr = Some t \<and> tab_url t = Some href \<and> href \<noteq> [] \<and>
      parseURL href = Some urlObj \<longrightarrow>
      setDeviceType (proxy_channel api parseURL sndr) href deviceType pw =
        (case cookies_set api (device_cookie_details href urlObj ''deviceoutput'' deviceType)
                (snd (cookies_remove api href (Some ''deviceoutput'') pw)) of
           (Inl e, w2) \<Rightarrow> (Inl (reported e), w2)
         | (Inr c1, w2) \<Rightarrow>
             (case cookies_set api (device_cookie_details href urlObj ''devicetype'' deviceType)
                     (snd (cookies_remove api href (Some ''devicetype'')
                             (notifyTabsOfChange parseURL href w2))) of
                (Inl e, w5) \<Rightarrow> (Inl (reported e), w5)
              | (Inr c2, w5) \<Rightarrow> (Inr True, notifyTabsOfChange parseURL href w5))))"
proof (intro conjI impI)
  show "setDeviceType chan href deviceType w =
       (case chan \<lparr>req_type = SET_COOKIE, req_url = href, req_name = Some ''deviceoutput'',
                   req_value = Some deviceType\<rparr> w of
          (d1, w1) \<Rightarrow>
            (case sendMessageToBackground
                    \<lparr>req_type = SET_COOKIE, req_url = href, req_name = Some ''deviceoutput'',
                     req_value = Some deviceType\<rparr> MESSAGE_TIMEOUT_MS d1 of
               Inl e \<Rightarrow> (Inl e, w1)
             | Inr _ \<Rightarrow>
                 (case chan \<lparr>req_type = SET_COOKIE, req_url = href,
                             req_name = Some ''devicetype'', req_value = Some deviceType\<rparr> w1 of
                    (d2, w2) \<Rightarrow>
                      (case sendMessageToBackground
                              \<lparr>req_type = SET_COOKIE, req_url = href,
                               req_name = Some ''devicetype'', req_value = Some deviceType\<rparr>
                              MESSAGE_TIMEOUT_MS d2 of
                         Inl e \<Rightarrow> (Inl e, w2)
                       | Inr _ \<Rightarrow> (Inr True, w2)))))"
    using assms by (rule setDeviceType_generic)
next
  assume v: "sender_tab sndr = Some t \<and> tab_url t = Some href \<and> href \<noteq> [] \<and>
      parseURL href = Some urlObj"
  then have 1: "sender_tab sndr = Some t" and 2: "tab_url t = Some href" and 3: "href \<noteq> []"
    and 4: "parseURL href = Some urlObj"
    by simp_all
  show "setDeviceType (proxy_channel api parseURL sndr) href deviceType pw =
        (case cookies_set api (device_cookie_details href urlObj ''deviceoutput'' deviceType)
                (snd (cookies_remove api href (Some ''deviceoutput'') pw)) of
           (Inl e, w2) \<Rightarrow> (Inl (reported e), w2)
         | (Inr c1, w2) \<Rightarrow>
             (case cookies_set api (device_cookie_details href urlObj ''devicetype'' deviceType)
                     (snd (cookies_remove api href (Some ''devicetype'')
                             (notifyTabsOfChange parseURL href w2))) of
                (Inl e, w5) \<Rightarrow> (Inl (reported e), w5)
              | (Inr c2, w5) \<Rightarrow> (Inr True, notifyTabsOfChange parseURL href w5)))"
    using setDeviceType_on_proxy [where parseURL = parseURL and href = href, OF assms 1 2 3 4] .
qed

theorem setDeviceType_both_or_error_witness:
  "fst (setDeviceType (proxy_channel jar example_parseURL example_sender)
          ''https://shop.example.com/cart'' ''mobile'' example_world) = Inr True \<and>
   cookie_store (snd (setDeviceType (proxy_channel jar example_parseURL example_sender)
          ''https://shop.example.com/cart'' ''mobile'' example_world)) =
     [example_cookie ''deviceoutput'' ''mobile'', example_cookie ''devicetype'' ''mobile''] \<and>
   fst (setDeviceType
          (proxy_channel (failing_jar ''devicetype'') example_parseURL example_sender)
          ''https://shop.example.com/cart'' ''mobile'' example_world) =
     Inl (Error ''Quota exceeded'') \<and>
   cookie_store (snd (setDeviceType
          (proxy_channel (failing_jar ''devicetype'') example_parseURL example_sender)
          ''https://shop.example.com/cart'' ''mobile'' example_world)) =
     [example_cookie ''deviceoutput'' ''mobile'']"
proof -
  let ?h = "''https://shop.example.com/cart''"
  let ?u = "\<lparr>url_origin = ''https://shop.example.com'', url_hostname = ''shop.example.com'',
            url_protocol = ''https:''\<rparr>"
  let ?t = "\<lparr>tab_id = 7, tab_url = Some ?h\<rparr>"
  have m: "''mobile'' \<in> set DEVICE_TYPES" by (simp add: DEVICE_TYPES_def)
  have v: "sender_tab example_sender = Some ?t \<and> tab_url ?t = Some ?h \<and> ?h \<noteq> [] \<and>
           example_parseURL ?h = Some ?u"
    by (simp add: example_sender_def example_parse_values)
  have a: "setDeviceType (proxy_channel jar example_parseURL example_sender) ?h ''mobile''
             example_world =
           (case cookies_set jar (device_cookie_details ?h ?u ''deviceoutput'' ''mobile'')
                   (snd (cookies_remove jar ?h (Some ''deviceoutput'') example_world)) of
              (Inl e, w2) \<Rightarrow> (Inl (reported e), w2)
            | (Inr c1, w2) \<Rightarrow>
                (case cookies_set jar (device_cookie_details ?h ?u ''devicetype'' ''mobile'')
                        (snd (cookies_remove jar ?h (Some ''devicetype'')
                                (notifyTabsOfChange example_parseURL ?h w2))) of
                   (Inl e, w5) \<Rightarrow> (Inl (reported e), w5)
                 | (Inr c2, w5) \<Rightarrow> (Inr True, notifyTabsOfChange example_parseURL ?h w5)))"
    using setDeviceType_both_or_error [OF m, where sndr = example_sender and t = ?t
        and href = ?h and parseURL = example_parseURL and urlObj = ?u and api = jar
        and pw = example_world and chan = "constant_channel TimedOut" and w = "()"] v
    by blast
  have b: "setDeviceType (proxy_channel (failing_jar ''devicetype'') example_parseURL
             example_sender) ?h ''mobile'' example_world =
           (case cookies_set (failing_jar ''devicetype'')
                   (device_cookie_details ?h ?u ''deviceoutput'' ''mobile'')
                   (snd (cookies_remove (failing_jar ''devicetype'') ?h (Some ''deviceoutput'')
                           example_world)) of
              (Inl e, w2) \<Rightarrow> (Inl (reported e), w2)
            | (Inr c1, w2) \<Rightarrow>
                (case cookies_set (failing_jar ''devicetype'')
                        (device_cookie_details ?h ?u ''devicetype'' ''mobile'')
                        (snd (cookies_remove (failing_jar ''devicetype'') ?h (Some ''devicetype'')
                                (notifyTabsOfChange example_parseURL ?h w2))) of
                   (Inl e, w5) \<Rightarrow> (Inl (reported e), w5)
                 | (Inr c2, w5) \<Rightarrow> (Inr True, notifyTabsOfChange example_parseURL ?h w5)))"
    using setDeviceType_both_or_error [OF m, where sndr = example_sender and t = ?t
        and href = ?h and parseURL = example_parseURL and urlObj = ?u
        and api = "failing_jar ''devicetype''" and pw = example_world
        and chan = "constant_channel TimedOut" and w = "()"] v
    by blast
  show ?thesis
    unfolding a b
    by (simp add: cookies_set_def cookies_remove_def jar_def failing_jar_def example_world_def
        notifyTabsOfChange_def example_parse_values device_cookie_details_def
        example_cookie_def)
qed

text \<open>
  C9 (as amended): a request that passes the validation of the sender and of the origins
  and whose type is none of \<open>GET_COOKIE\<close>, \<open>SET_COOKIE\<close> and \<open>GET_ALL_COOKIES\<close> is answered with
  \<open>{success: false, error: 'Unknown message type'}\<close>. A request of such a type that fails the
  validation is answered with the failure of the validation instead: \<open>Invalid sender\<close> when
  the sender has no tab or no tab URL, else \<open>Invalid URL format\<close> when the tab URL or the
  requested URL does not parse, else \<open>Origin mismatch\<close> when the two origins differ. In
  every case no operation of the cookie store is performed.
\<close>

theorem unknown_type_rejected:
  assumes "req_type request \<noteq> ''GET_COOKIE''" and "req_type request \<noteq> ''SET_COOKIE''"
    and "req_type request \<noteq> ''GET_ALL_COOKIES''"
  shows "fst (onMessage api parseURL request sndr w) =
           \<lparr>resp_success = False,
            resp_error = Some
              (case sender_tab sndr of
                 None \<Rightarrow> ''Invalid sender''
               | Some t \<Rightarrow>
                   (case tab_url t of
                      None \<Rightarrow> ''Invalid sender''
                    | Some tu \<Rightarrow>
                        if tu = [] then ''Invalid sender''
                        else (case parseURL tu of
                                None \<Rightarrow> ''Invalid URL format''
                              | Some senderUrl \<Rightarrow>
                                  (case parseURL (req_url request) of
                                     None \<Rightarrow> ''Invalid URL format''
                                   | Some requestUrl \<Rightarrow>
                                       if url_origin senderUrl \<noteq> url_origin requestUrl
                                       then ''Origin mismatch''
                                       else ''Unknown message type'')))),
            resp_cookie = None, resp_result = None, resp_cookies = None\<rparr> \<and>
         snd (onMessage api parseURL request sndr w) = w \<and>
         calls (snd (onMessage api parseURL request sndr w)) = calls w \<and>
         ((\<exists>t tu senderUrl requestUrl.
             sender_tab sndr = Some t \<and> tab_url t = Some tu \<and> tu \<noteq> [] \<and>
             parseURL tu = Some senderUrl \<and> parseURL (req_url request) = Some requestUrl \<and>
             url_origin senderUrl = url_origin requestUrl) \<longrightarrow>
          fst (onMessage api parseURL request sndr w) =
            \<lparr>resp_success = False, resp_error = Some ''Unknown message type'',
             resp_cookie = None, resp_result = None, resp_cookies = None\<rparr>)"
proof -
  have d: "dispatch api parseURL request w = (failure ''Unknown message type'', w)"
    using assms by (simp add: dispatch_unknown GET_COOKIE_def SET_COOKIE_def GET_ALL_COOKIES_def)
  have eq: "onMessage api parseURL request sndr w =
      (failure
         (case sender_tab sndr of
            None \<Rightarrow> ''Invalid sender''
          | Some t \<Rightarrow>
              (case tab_url t of
                 None \<Rightarrow> ''Invalid sender''
               | Some tu \<Rightarrow>
                   if tu = [] then ''Invalid sender''
                   else (case parseURL tu of
                           None \<Rightarrow> ''Invalid URL format''
                         | Some senderUrl \<Rightarrow>
                             (case parseURL (req_url request) of
                                None \<Rightarrow> ''Invalid URL format''
                              | Some requestUrl \<Rightarrow>
                                  if url_origin senderUrl \<noteq> url_origin requestUrl
                                  then ''Origin mismatch''
                                  else ''Unknown message type'')))), w)"
    unfolding onMessage_def d by (simp split: option.splits)
  have valid: "onMessage api parseURL request sndr w = (failure ''Unknown message type'', w)"
    if "\<exists>t tu senderUrl requestUrl.
             sender_tab sndr = Some t \<and> tab_url t = Some tu \<and> tu \<noteq> [] \<and>
             parseURL tu = Some senderUrl \<and> parseURL (req_url request) = Some requestUrl \<and>
             url_origin senderUrl = url_origin requestUrl"
    using that unfolding onMessage_def d by auto
  have 1: "fst (onMessage api parseURL request sndr w) =
           \<lparr>resp_success = False,
            resp_error = Some
              (case sender_tab sndr of
                 None \<Rightarrow> ''Invalid sender''
               | Some t \<Rightarrow>
                   (case tab_url t of
                      None \<Rightarrow> ''Invalid sender''
                    | Some tu \<Rightarrow>
                        if tu = [] then ''Invalid sender''
                        else (case parseURL tu of
                                None \<Rightarrow> ''Invalid URL format''
                              | Some senderUrl \<Rightarrow>
                                  (case parseURL (req_url request) of
                                     None \<Rightarrow> ''Invalid URL format''
                                   | Some requestUrl \<Rightarrow>
                                       if url_origin senderUrl \<noteq> url_origin requestUrl
                                       then ''Origin mismatch''
                                       else ''Unknown message type'')))),
            resp_cookie = None, resp_result = None, resp_cookies = None\<rparr>"
    unfolding eq by (simp only: fst_conv failure_def)
  have 2: "snd (onMessage api parseURL request sndr w) = w"
    unfolding eq by (simp only: snd_conv)
  from 1 2 valid show ?thesis by (simp add: failure_def)
qed

theorem unknown_type_rejected_witness:
  "fst (onMessage jar example_parseURL
          \<lparr>req_type = ''DELETE_COOKIE'', req_url = ''https://shop.example.com/cart'',
           req_name = Some ''deviceoutput'', req_value = None\<rparr>
          example_sender example_world) =
     \<lparr>resp_success = False, resp_error = Some ''Unknown message type'', resp_cookie = None,
      resp_result = None, resp_cookies = None\<rparr> \<and>
   calls (snd (onMessage jar example_parseURL
          \<lparr>req_type = ''DELETE_COOKIE'', req_url = ''https://shop.example.com/cart'',
           req_name = Some ''deviceoutput'', req_value = None\<rparr>
          example_sender example_world)) = [] \<and>
   fst (onMessage jar example_parseURL
          \<lparr>req_type = ''DELETE_COOKIE'', req_url = ''https://evil.example.net/'',
           req_name = Some ''deviceoutput'', req_value = None\<rparr>
          example_sender example_world) =
     \<lparr>resp_success = False, resp_error = Some ''Origin mismatch'', resp_cookie = None,
      resp_result = None, resp_cookies = None\<rparr> \<and>
   fst (onMessage jar example_parseURL
          \<lparr>req_type = ''DELETE_COOKIE'', req_url = ''not a url'',
           req_name = Some ''deviceoutput'', req_value = None\<rparr>
          example_sender example_world) =
     \<lparr>resp_success = False, resp_error = Some ''Invalid URL format'', resp_cookie = None,
      resp_result = None, resp_cookies = None\<rparr>"
proof -
  let ?r = "\<lparr>req_type = ''DELETE_COOKIE'', req_url = ''https://shop.example.com/cart'',
           req_name = Some ''deviceoutput'', req_value = None\<rparr>"
  let ?e = "\<lparr>req_type = ''DELETE_COOKIE'', req_url = ''https://evil.example.net/'',
           req_name = Some ''deviceoutput'', req_value = None\<rparr>"
  let ?n = "\<lparr>req_type = ''DELETE_COOKIE'', req_url = ''not a url'',
           req_name = Some ''deviceoutput'', req_value = None\<rparr>"
  have r: "req_type ?r \<noteq> ''GET_COOKIE''" "req_type ?r \<noteq> ''SET_COOKIE''"
    "req_type ?r \<noteq> ''GET_ALL_COOKIES''"
    by simp_all
  have e: "req_type ?e \<noteq> ''GET_COOKIE''" "req_type ?e \<noteq> ''SET_COOKIE''"
    "req_type ?e \<noteq> ''GET_ALL_COOKIES''"
    by simp_all
  have n: "req_type ?n \<noteq> ''GET_COOKIE''" "req_type ?n \<noteq> ''SET_COOKIE''"
    "req_type ?n \<noteq> ''GET_ALL_COOKIES''"
    by simp_all
  have p: "example_parseURL ''not a url'' = None"
    by (simp add: example_parseURL_def)
  from unknown_type_rejected [where parseURL = example_parseURL, OF r, of jar example_sender
      example_world]
    unknown_type_rejected [where parseURL = example_parseURL, OF e, of jar example_sender
      example_world]
    unknown_type_rejected [where parseURL = example_parseURL, OF n, of jar example_sender
      example_world]
  show ?thesis
    by (simp add: example_world_def example_sender_def example_parse_values p)
qed

text \<open>
  The validation runs before the type is looked at: a request of an unknown type from a
  sender without a tab is answered with \<open>Invalid sender\<close>.
\<close>

theorem unknown_type_invalid_sender_counterexample:
  "fst (onMessage jar example_parseURL
          \<lparr>req_type = ''DELETE_COOKIE'', req_url = ''https://shop.example.com/cart'',
           req_name = Some ''deviceoutput'', req_value = None\<rparr>
          \<lparr>sender_tab = None\<rparr> example_world) =
     \<lparr>resp_success = False, resp_error = Some ''Invalid sender'', resp_cookie = None,
      resp_result = None, resp_cookies = None\<rparr>"
  by (simp add: onMessage_def failure_def)

text \<open>
  C10: \<open>getCurrentDevice\<close> and \<open>getCookie\<close> never throw. For every failure of the channel
  or of the proxy (a timeout, a transport error, an empty response, a response without
  success) each of them returns null. A cookie whose value is the empty string counts as
  absent: \<open>getCookie\<close> returns null for it, and \<open>getCurrentDevice\<close> goes on from an empty
  \<open>deviceoutput\<close> cookie to the \<open>devicetype\<close> cookie.
\<close>

theorem cookie_reads_never_throw:
  "(\<exists>v. fst (getCurrentDevice chan href w) = Inr v) \<and>
   (\<exists>v. fst (getCookie chan href n w) = Inr v) \<and>
   (delivery_failed d =
      (d = TimedOut \<or> (\<exists>m x. d = Responded (Some m) x) \<or> d = Responded None None \<or>
       (\<exists>r. d = Responded None (Some r) \<and> \<not> resp_success r))) \<and>
   (delivery_failed (fst (chan \<lparr>req_type = GET_ALL_COOKIES, req_url = href, req_name = None,
                                req_value = None\<rparr> w)) \<longrightarrow>
    fst (getCurrentDevice chan href w) = Inr None) \<and>
   (delivery_failed (fst (chan \<lparr>req_type = GET_COOKIE, req_url = href, req_name = Some n,
                                req_value = None\<rparr> w)) \<longrightarrow>
    fst (getCookie chan href n w) = Inr None) \<and>
   (\<forall>r c. fst (chan \<lparr>req_type = GET_COOKIE, req_url = href, req_name = Some n,
                      req_value = None\<rparr> w) = Responded None (Some r) \<and>
          resp_success r \<and> resp_cookie r = Some c \<and> cookie_value c = [] \<longrightarrow>
          fst (getCookie chan href n w) = Inr None) \<and>
   (\<forall>r cookies c.
      fst (chan \<lparr>req_type = GET_ALL_COOKIES, req_url = href, req_name = None,
                 req_value = None\<rparr> w) = Responded None (Some r) \<and>
      resp_success r \<and> resp_cookies r = Some cookies \<and>
      find (\<lambda>c. cookie_name c = ''deviceoutput'') cookies = Some c \<and> cookie_value c = [] \<longrightarrow>
      fst (getCurrentDevice chan href w) =
        Inr (case truthy_value (find (\<lambda>c. cookie_name c = ''devicetype'') cookies) of
               None \<Rightarrow> None
             | Some v \<Rightarrow> if v \<in> set DEVICE_TYPES then Some v else None))"
proof (intro conjI allI impI)
  show "\<exists>v. fst (getCurrentDevice chan href w) = Inr v" by (rule getCurrentDevice_total)
  show "\<exists>v. fst (getCookie chan href n w) = Inr v" by (rule getCookie_total)
  show "delivery_failed d =
      (d = TimedOut \<or> (\<exists>m x. d = Responded (Some m) x) \<or> d = Responded None None \<or>
       (\<exists>r. d = Responded None (Some r) \<and> \<not> resp_success r))"
    by (auto simp: delivery_failed_def split: delivery.splits option.splits)
next
  assume "delivery_failed (fst (chan \<lparr>req_type = GET_ALL_COOKIES, req_url = href,
            req_name = None, req_value = None\<rparr> w))"
  then show "fst (getCurrentDevice chan href w) = Inr None" by (rule getCurrentDevice_failed)
next
  assume "delivery_failed (fst (chan \<lparr>req_type = GET_COOKIE, req_url = href,
            req_name = Some n, req_value = None\<rparr> w))"
  then show "fst (getCookie chan href n w) = Inr None" by (rule getCookie_failed)
next
  fix r c
  assume "fst (chan \<lparr>req_type = GET_COOKIE, req_url = href, req_name = Some n,
                      req_value = None\<rparr> w) = Responded None (Some r) \<and>
          resp_success r \<and> resp_cookie r = Some c \<and> cookie_value c = []"
  then show "fst (getCookie chan href n w) = Inr None"
    using getCookie_cookie [where chan = chan and href = href and n = n and w = w and r = r]
    by (simp add: truthy_value_def)
next
  fix r cookies c
  assume "fst (chan \<lparr>req_type = GET_ALL_COOKIES, req_url = href, req_name = None,
                 req_value = None\<rparr> w) = Responded None (Some r) \<and>
      resp_success r \<and> resp_cookies r = Some cookies \<and>
      find (\<lambda>c. cookie_name c = ''deviceoutput'') cookies = Some c \<and> cookie_value c = []"
  then show "fst (getCurrentDevice chan href w) =
        Inr (case truthy_value (find (\<lambda>c. cookie_name c = ''devicetype'') cookies) of
               None \<Rightarrow> None
             | Some v \<Rightarrow> if v \<in> set DEVICE_TYPES then Some v else None)"
    using getCurrentDevice_cookies [where chan = chan and href = href and w = w and r = r
        and cookies = cookies]
    by (simp add: truthy_value_def)
qed

theorem cookie_reads_never_throw_witness:
  "fst (getCurrentDevice (constant_channel TimedOut) ''https://shop.example.com/cart'' ()) =
     Inr None \<and>
   fst (getCookie (constant_channel (Responded None (Some (failure ''Origin mismatch''))))
          ''https://shop.example.com/cart'' ''deviceoutput'' ()) = Inr None \<and>
   fst (getCookie
          (constant_channel (Responded None (Some (cookie_response
             (Some (example_cookie ''deviceoutput'' ''''))))))
          ''https://shop.example.com/cart'' ''deviceoutput'' ()) = Inr None \<and>
   fst (getCurrentDevice
          (constant_channel (Responded None (Some (cookies_response
             [example_cookie ''deviceoutput'' '''', example_cookie ''devicetype'' ''app'']))))
          ''https://shop.example.com/cart'' ()) = Inr (Some ''app'')"
proof -
  let ?h = "''https://shop.example.com/cart''"
  have 1: "fst (getCurrentDevice (constant_channel TimedOut) ?h ()) = Inr None"
    using cookie_reads_never_throw [of "constant_channel TimedOut" ?h "()" "''x''" TimedOut]
    by (simp add: constant_channel_def)
  have 2: "fst (getCookie (constant_channel (Responded None (Some (failure ''Origin mismatch''))))
          ?h ''deviceoutput'' ()) = Inr None"
    using cookie_reads_never_throw
      [of "constant_channel (Responded None (Some (failure ''Origin mismatch'')))" ?h "()"
        "''deviceoutput''" "Responded None (Some (failure ''Origin mismatch''))"]
    by (simp add: constant_channel_def failure_def)
  have 3: "fst (getCookie
          (constant_channel (Responded None (Some (cookie_response
             (Some (example_cookie ''deviceoutput'' ''''))))))
          ?h ''deviceoutput'' ()) = Inr None"
    using cookie_reads_never_throw
      [of "constant_channel (Responded None (Some (cookie_response
             (Some (example_cookie ''deviceoutput'' '''')))))" ?h "()" "''deviceoutput''" TimedOut]
    by (simp add: constant_channel_def cookie_response_def example_cookie_def)
  have 4: "fst (getCurrentDevice
          (constant_channel (Responded None (Some (cookies_response
             [example_cookie ''deviceoutput'' '''', example_cookie ''devicetype'' ''app'']))))
          ?h ()) = Inr (Some ''app'')"
    using cookie_reads_never_throw
      [of "constant_channel (Responded None (Some (cookies_response
             [example_cookie ''deviceoutput'' '''', example_cookie ''devicetype'' ''app''])))"
        ?h "()" "''x''" TimedOut]
    by (simp add: constant_channel_def cookies_response_def example_cookie_def truthy_value_def
        DEVICE_TYPES_def)
  from 1 2 3 4 show ?thesis by simp
qed

end
